theory Spec2Isabelle
  imports Complex_Main "HOL-Library.Sublist"
begin

section \<open>The world the scripts run in\<close>

text \<open>
  Both scripts (\<^verbatim>\<open>ise-export.py\<close> and \<^verbatim>\<open>ise-export-test.py\<close>) drive one paramiko
  channel. Everything outside the scripts is a value of the record \<open>world\<close>, passed
  through every call and returned updated.

  Python exceptions are values of \<open>exn\<close>. \<open>SystemExit\<close> is what \<^verbatim>\<open>sys.exit\<close> raises; it
  is not an \<^verbatim>\<open>Exception\<close>, so the handlers of \<^verbatim>\<open>main\<close> let it through.
\<close>

datatype exn =
    SSHException string
  | ClientError string
  | NameError string
  | OtherException string
  | SystemExit int

text \<open>
  What a library call can raise on its own: a \<^verbatim>\<open>paramiko.SSHException\<close>, a botocore
  \<^verbatim>\<open>ClientError\<close>, or some other subclass of \<^verbatim>\<open>Exception\<close> (a socket error, a
  \<^verbatim>\<open>UnicodeDecodeError\<close>). The text is what \<^verbatim>\<open>str(e)\<close> gives.
\<close>

datatype fault = SSHFault string | ClientFault string | OtherFault string

fun raised :: "fault \<Rightarrow> exn" where
  "raised (SSHFault m) = SSHException m"
| "raised (ClientFault m) = ClientError m"
| "raised (OtherFault m) = OtherException m"

text \<open>
  What one poll of the channel finds: \<^verbatim>\<open>recv_ready()\<close> false; or \<^verbatim>\<open>recv_ready()\<close> true and
  \<^verbatim>\<open>recv(1024).decode('utf-8')\<close> yields a text chunk; or true and the read (or the decoding)
  raises.
\<close>

datatype event = NotReady | Ready string | RecvError fault

datatype level = INFO | ERROR

text \<open>
  The calls the orchestrator makes, in the order it makes them. \<open>Wait p b\<close> records that a
  call \<^verbatim>\<open>wait_for_prompt(channel, p)\<close> returned \<open>b\<close>.
\<close>

datatype call =
    Connect
  | InvokeShell
  | Send string
  | Wait string bool
  | CloseChannel
  | CloseSSH
  | PathExists string
  | S3Upload string string string
  | OsSystem string

record world =
  clock :: rat
  incoming :: "event list"
  log :: "(level \<times> string) list"
  trace :: "call list"

text \<open>
  \<^verbatim>\<open>time.time()\<close> reads the clock, in seconds, as an exact rational. \<^verbatim>\<open>time.sleep(d)\<close>
  advances it by \<open>d\<close>; nothing else moves it.
\<close>

definition time_time :: "world \<Rightarrow> rat" where
  "time_time w = clock w"

definition time_sleep :: "rat \<Rightarrow> world \<Rightarrow> world" where
  "time_sleep d w = w\<lparr>clock := clock w + d\<rparr>"

definition logging_info :: "string \<Rightarrow> world \<Rightarrow> world" where
  "logging_info msg w = w\<lparr>log := log w @ [(INFO, msg)]\<rparr>"

definition logging_error :: "string \<Rightarrow> world \<Rightarrow> world" where
  "logging_error msg w = w\<lparr>log := log w @ [(ERROR, msg)]\<rparr>"

definition record_call :: "call \<Rightarrow> world \<Rightarrow> world" where
  "record_call c w = w\<lparr>trace := trace w @ [c]\<rparr>"

text \<open>
  One poll: the next event of the channel is consumed; a channel with nothing further
  to deliver is never ready.
\<close>

definition poll :: "world \<Rightarrow> event \<times> world" where
  "poll w = (case incoming w of [] \<Rightarrow> (NotReady, w) | e # es \<Rightarrow> (e, w\<lparr>incoming := es\<rparr>))"

section \<open>Strings\<close>

text \<open>Python's \<^verbatim>\<open>p in s\<close> on strings: \<open>p\<close> occurs as a contiguous run of \<open>s\<close>.\<close>

fun str_in :: "string \<Rightarrow> string \<Rightarrow> bool" where
  "str_in p [] = (p = [])"
| "str_in p (c # cs) = (prefix p (c # cs) \<or> str_in p cs)"

text \<open>\<^verbatim>\<open>str.isspace\<close> on one character (code points below 256) and \<^verbatim>\<open>str.strip()\<close>.\<close>

definition isspace :: "char \<Rightarrow> bool" where
  "isspace c = (let n = (of_char c :: nat) in
     (9 \<le> n \<and> n \<le> 13) \<or> (28 \<le> n \<and> n \<le> 32) \<or> n = 133 \<or> n = 160)"

definition strip :: "string \<Rightarrow> string" where
  "strip s = rev (dropWhile isspace (rev (dropWhile isspace s)))"

section \<open>The prompt matcher\<close>

text \<open>
  \<^verbatim>\<open>wait_for_prompt\<close> (the same text in both scripts). \<open>wait_loop\<close> is its \<^verbatim>\<open>while\<close> loop
  with the locals \<^verbatim>\<open>start_time\<close> and \<^verbatim>\<open>buffer\<close> as arguments; it hands back the value
  returned (or the exception raised), the buffer as it stood at that moment, and the world.
\<close>

function wait_loop ::
  "world \<Rightarrow> string \<Rightarrow> rat \<Rightarrow> rat \<Rightarrow> string \<Rightarrow> (exn + bool) \<times> string \<times> world" where
  "wait_loop w prompt timeout start_time buffer =
     (if time_time w - start_time < timeout then
        (case poll w of
           (NotReady, w1) \<Rightarrow>
             wait_loop (time_sleep (1/10) w1) prompt timeout start_time buffer
         | (Ready chunk, w1) \<Rightarrow>
             (let buffer' = buffer @ chunk;
                  w2 = logging_info (''Received: '' @ strip chunk) w1
              in if str_in prompt buffer' then (Inr True, buffer', w2)
                 else wait_loop (time_sleep (1/10) w2) prompt timeout start_time buffer')
         | (RecvError f, w1) \<Rightarrow> (Inl (raised f), buffer, w1))
      else (Inr False, buffer, w))"
  by pat_completeness auto

lemma poll_clock: "(e, w1) = poll w \<Longrightarrow> clock w1 = clock w"
  by (auto simp: poll_def split: list.splits)

text \<open>The number of polls still ahead of a loop that started at \<open>s\<close> and now reads \<open>now\<close>.\<close>

definition polls_left :: "rat \<Rightarrow> rat \<Rightarrow> rat \<Rightarrow> nat" where
  "polls_left s t now = nat \<lceil>(s + t - now) * 10\<rceil>"

lemma polls_left_step:
  assumes "now - s < t"
  shows "polls_left s t now = Suc (polls_left s t (now + 1/10))"
proof -
  define c where "c = \<lceil>(s + t - now) * 10\<rceil>"
  have "(s + t - (now + 1/10)) * 10 = (s + t - now) * 10 - 1"
    by (simp add: algebra_simps)
  then have "\<lceil>(s + t - (now + 1/10)) * 10\<rceil> = c - 1"
    unfolding c_def by (simp only: ceiling_diff_one)
  moreover have "0 < c"
    unfolding c_def using assms by simp
  ultimately have "nat c = Suc (nat \<lceil>(s + t - (now + 1/10)) * 10\<rceil>)"
    by linarith
  then show ?thesis
    unfolding polls_left_def c_def .
qed

termination wait_loop
proof (relation "measure (\<lambda>(w, prompt, timeout, start_time, buffer).
                   polls_left start_time timeout (clock w))", goal_cases)
  case 1
  show ?case by simp
next
  case 2
  then show ?case
    by (simp add: time_sleep_def time_time_def polls_left_step poll_clock)
next
  case 3
  then show ?case
    by (simp add: time_sleep_def time_time_def logging_info_def polls_left_step poll_clock)
qed

declare wait_loop.simps [simp del]

definition wait_for_prompt :: "world \<Rightarrow> string \<Rightarrow> rat \<Rightarrow> (exn + bool) \<times> world" where
  "wait_for_prompt w prompt timeout =
     (let start_time = time_time w;
          buffer = [];
          (r, buffer', w') = wait_loop w prompt timeout start_time buffer
      in (r, w'))"

section \<open>Statements\<close>

text \<open>
  A statement takes the world and either completes or raises, leaving the world changed.
  \<open>block\<close> runs a suite: statements in order, stopping at the first that raises.
\<close>

type_synonym 'a io = "world \<Rightarrow> (exn + 'a) \<times> world"

definition and_then :: "'a io \<Rightarrow> ('a \<Rightarrow> 'b io) \<Rightarrow> 'b io" where
  "and_then m f w = (case m w of (Inl e, w') \<Rightarrow> (Inl e, w') | (Inr a, w') \<Rightarrow> f a w')"

fun block :: "unit io list \<Rightarrow> unit io" where
  "block [] w = (Inr (), w)"
| "block (s # ss) w = (case s w of (Inl e, w') \<Rightarrow> (Inl e, w') | (Inr u, w') \<Rightarrow> block ss w')"

definition log_info :: "string \<Rightarrow> unit io" where
  "log_info msg w = (Inr (), logging_info msg w)"

definition log_error :: "string \<Rightarrow> unit io" where
  "log_error msg w = (Inr (), logging_error msg w)"

definition sys_exit :: "int \<Rightarrow> 'a io" where
  "sys_exit code w = (Inl (SystemExit code), w)"

abbreviation NL :: char where
  "NL \<equiv> CHR 0x0A"

abbreviation QUOTE :: char where
  "QUOTE \<equiv> CHR 0x27"

abbreviation DQUOTE :: char where
  "DQUOTE \<equiv> CHR 0x22"

section \<open>The machine the script runs on\<close>

text \<open>
  What the run finds outside the channel: the command line, the file system, the
  environment as \<^verbatim>\<open>os.getenv\<close> answers once \<^verbatim>\<open>load_dotenv\<close> has run, whether boto3 finds
  credentials, whether connecting and opening the shell raise, what the S3 upload and
  \<^verbatim>\<open>os.system\<close> answer, and today's date as \<^verbatim>\<open>strftime("%d-%b-%Y")\<close> prints it.
\<close>

record host =
  argv :: "string list"
  script_dir :: string
  path_exists :: "string \<Rightarrow> bool"
  getenv :: "string \<Rightarrow> string option"
  expanduser :: "string \<Rightarrow> string"
  aws_credentials :: "fault + bool"
  connect_fault :: "fault option"
  shell_fault :: "fault option"
  s3_upload :: "string \<Rightarrow> string \<Rightarrow> string \<Rightarrow> fault option"
  os_system :: "string \<Rightarrow> int"
  today :: string
  str_of :: "string \<Rightarrow> string"

section \<open>The channel\<close>

definition ssh_connect :: "host \<Rightarrow> unit io" where
  "ssh_connect h w =
     (case connect_fault h of
        Some f \<Rightarrow> (Inl (raised f), record_call Connect w)
      | None \<Rightarrow> (Inr (), record_call Connect w))"

definition invoke_shell :: "host \<Rightarrow> unit io" where
  "invoke_shell h w =
     (case shell_fault h of
        Some f \<Rightarrow> (Inl (raised f), record_call InvokeShell w)
      | None \<Rightarrow> (Inr (), record_call InvokeShell w))"

definition channel_send :: "string \<Rightarrow> unit io" where
  "channel_send s w = (Inr (), record_call (Send s) w)"

definition channel_close :: "unit io" where
  "channel_close w = (Inr (), record_call CloseChannel w)"

definition ssh_close :: "unit io" where
  "ssh_close w = (Inr (), record_call CloseSSH w)"

text \<open>
  The stanza \<^verbatim>\<open>main\<close> repeats six times:
  \<^verbatim>\<open>if not wait_for_prompt(channel, p): logging.error(m); sys.exit(1)\<close>,
  with the default \<^verbatim>\<open>timeout=30\<close>.
\<close>

definition wait_or_exit :: "string \<Rightarrow> string \<Rightarrow> unit io" where
  "wait_or_exit prompt msg w =
     (case wait_for_prompt w prompt 30 of
        (Inl e, w1) \<Rightarrow> (Inl e, w1)
      | (Inr matched, w1) \<Rightarrow>
          (let w2 = record_call (Wait prompt matched) w1
           in if \<not> matched then block [log_error msg, sys_exit 1] w2
              else (Inr (), w2)))"

section \<open>Module-level names\<close>

text \<open>
  A module's namespace: the names Python sets for a script, then each name the source
  binds at top level in the order it binds them, with the text \<^verbatim>\<open>str()\<close> gives for its
  value (for modules, functions and other objects the host's \<open>str_of\<close>). Reading a name
  that is not bound raises \<^verbatim>\<open>NameError\<close>; no builtin is called \<^verbatim>\<open>CSV_FILE\<close>.
\<close>

definition script_names :: "host \<Rightarrow> (string \<times> string) list" where
  "script_names h =
     [(''__name__'', ''__main__''),
      (''__doc__'', str_of h ''__doc__''),
      (''__package__'', str_of h ''__package__''),
      (''__loader__'', str_of h ''__loader__''),
      (''__spec__'', str_of h ''__spec__''),
      (''__annotations__'', str_of h ''__annotations__''),
      (''__builtins__'', str_of h ''__builtins__''),
      (''__file__'', str_of h ''__file__''),
      (''__cached__'', str_of h ''__cached__'')]"

definition name_value :: "(string \<times> string) list \<Rightarrow> string \<Rightarrow> string io" where
  "name_value globals n w =
     (case map_of globals n of
        None \<Rightarrow> (Inl (NameError (''name '' @ [QUOTE] @ n @ [QUOTE] @ '' is not defined'')), w)
      | Some v \<Rightarrow> (Inr v, w))"

definition export_globals :: "host \<Rightarrow> (string \<times> string) list" where
  "export_globals h = script_names h @
     [(''__author__'', ''Andre Klyuchka''),
      (''__email__'', ''aklyuchk@cisco.com''),
      (''__website__'', ''https://codeyo.net''),
      (''__license__'', ''MIT - https://mit-license.org/''),
      (''paramiko'', str_of h ''paramiko''),
      (''os'', str_of h ''os''),
      (''sys'', str_of h ''sys''),
      (''logging'', str_of h ''logging''),
      (''datetime'', str_of h ''datetime''),
      (''time'', str_of h ''time''),
      (''boto3'', str_of h ''boto3''),
      (''ClientError'', str_of h ''ClientError''),
      (''Path'', str_of h ''Path''),
      (''load_dotenv'', str_of h ''load_dotenv''),
      (''SCRIPT_DIR'', script_dir h),
      (''log_file'', script_dir h @ ''/ise_export.log''),
      (''console'', str_of h ''console''),
      (''load_environment'', str_of h ''load_environment''),
      (''get_config'', str_of h ''get_config''),
      (''check_aws_credentials'', str_of h ''check_aws_credentials''),
      (''upload_to_s3'', str_of h ''upload_to_s3''),
      (''wait_for_prompt'', str_of h ''wait_for_prompt''),
      (''main'', str_of h ''main'')]"

definition test_globals :: "host \<Rightarrow> (string \<times> string) list" where
  "test_globals h = script_names h @
     [(''__author__'', ''Andre Klyuchka''),
      (''__email__'', ''aklyuchk@cisco.com''),
      (''__website__'', ''https://codeyo.net''),
      (''__license__'', ''MIT - https://mit-license.org/''),
      (''paramiko'', str_of h ''paramiko''),
      (''os'', str_of h ''os''),
      (''sys'', str_of h ''sys''),
      (''logging'', str_of h ''logging''),
      (''datetime'', str_of h ''datetime''),
      (''time'', str_of h ''time''),
      (''console'', str_of h ''console''),
      (''ISE_HOST'', ''1.2.3.4''),
      (''ISE_USER'', ''iseadmin''),
      (''ISE_KEY'', expanduser h ''~/.ssh/ise''),
      (''NFS_PATH'', ''/home/nfsshare''),
      (''PRESIGNED_URL'',
         ''https://your-s3-bucket.s3.amazonaws.com/FullReport_'' @ today h
           @ ''.csv?AWSAccessKeyId=...''),
      (''TODAY'', today h),
      (''CSV_FILE'', ''FullReport_'' @ today h @ ''.csv''),
      (''wait_for_prompt'', str_of h ''wait_for_prompt''),
      (''main'', str_of h ''main'')]"

section \<open>The shell session\<close>

text \<open>
  The part of \<^verbatim>\<open>main\<close> from \<^verbatim>\<open>paramiko.SSHClient()\<close> to
  \<^verbatim>\<open>logging.info("SSH connection closed")\<close>, the same text in both scripts but for where
  the host name comes from. Creating the client object and setting the host key policy
  touch nothing outside the process and are left out.
\<close>

definition shell_session :: "host \<Rightarrow> string \<Rightarrow> (string \<times> string) list \<Rightarrow> unit io" where
  "shell_session h ise_host globals = block
     [log_info (''Connecting to '' @ ise_host @ ''...''),
      ssh_connect h,
      log_info ''Connected successfully'',
      invoke_shell h,
      log_info ''Interactive shell created'',
      wait_or_exit ''ise-ppan-cx/admin#'' ''Timeout waiting for initial prompt'',
      log_info ''Generating export file'',
      channel_send (''application configure ise'' @ [NL]),
      wait_or_exit ''Selection configuration option'' ''Timeout waiting for menu'',
      channel_send (''16'' @ [NL]),
      wait_or_exit ''Starting to generate All Endpoints report''
        ''Timeout waiting for report start'',
      wait_or_exit ''Completed generating All Endpoints report''
        ''Timeout waiting for report completion'',
      channel_send (''0'' @ [NL]),
      wait_or_exit ''ise-ppan-cx/admin#'' ''Timeout waiting for admin prompt'',
      log_info ''Copying file from ISE to NFS repository'',
      and_then (name_value globals ''CSV_FILE'')
        (\<lambda>csv_file. channel_send (''copy disk:/'' @ csv_file @ '' repository NFS'' @ [NL])),
      wait_or_exit ''ise-ppan-cx/admin#'' ''Timeout waiting for copy completion'',
      channel_close,
      ssh_close,
      log_info ''SSH connection closed'']"

text \<open>
  The two \<^verbatim>\<open>except\<close> clauses of \<^verbatim>\<open>main\<close>: an \<^verbatim>\<open>SSHException\<close>, then any other
  \<^verbatim>\<open>Exception\<close>, is logged and turned into \<^verbatim>\<open>sys.exit(1)\<close>. \<^verbatim>\<open>SystemExit\<close> passes through.
\<close>

definition try_except :: "unit io \<Rightarrow> unit io" where
  "try_except body w =
     (case body w of
        (Inr u, w') \<Rightarrow> (Inr u, w')
      | (Inl (SSHException m), w') \<Rightarrow> block [log_error (''SSH error: '' @ m), sys_exit 1] w'
      | (Inl (SystemExit code), w') \<Rightarrow> (Inl (SystemExit code), w')
      | (Inl (ClientError m), w') \<Rightarrow>
          block [log_error (''An error occurred: '' @ m), sys_exit 1] w'
      | (Inl (NameError m), w') \<Rightarrow>
          block [log_error (''An error occurred: '' @ m), sys_exit 1] w'
      | (Inl (OtherException m), w') \<Rightarrow>
          block [log_error (''An error occurred: '' @ m), sys_exit 1] w')"

text \<open>
  The exit status of the process that ran \<^verbatim>\<open>main()\<close>: 0 when it returned, the code of a
  \<^verbatim>\<open>SystemExit\<close>, 1 for an exception nobody caught.
\<close>

fun exit_status :: "exn + unit \<Rightarrow> int" where
  "exit_status (Inr u) = 0"
| "exit_status (Inl (SystemExit code)) = code"
| "exit_status (Inl e) = 1"

section \<open>\<^verbatim>\<open>ise-export-test.py\<close>\<close>

definition test_publish :: "host \<Rightarrow> unit io" where
  "test_publish h =
     and_then (name_value (test_globals h) ''NFS_PATH'') (\<lambda>nfs_path.
     and_then (name_value (test_globals h) ''CSV_FILE'') (\<lambda>csv_file.
       (\<lambda>w. let path = nfs_path @ ''/'' @ csv_file;
                 w1 = record_call (PathExists path) w
             in if path_exists h path then
                  and_then (name_value (test_globals h) ''PRESIGNED_URL'') (\<lambda>url.
                    (\<lambda>w. let upload_cmd = ''curl -X PUT -T '' @ [DQUOTE] @ path @ [DQUOTE]
                                     @ '' '' @ [DQUOTE] @ url @ [DQUOTE];
                              w2 = record_call (OsSystem upload_cmd) w
                          in if os_system h upload_cmd \<noteq> 0
                             then block [log_error ''Failed to upload file to S3'', sys_exit 1] w2
                             else (Inr (), w2))) w1
                else block [log_error (''File not found: '' @ path), sys_exit 1] w1)))"

definition test_main :: "host \<Rightarrow> unit io" where
  "test_main h = block
     [log_info ''Starting ISE export process'',
      try_except (block
        [and_then (name_value (test_globals h) ''ISE_HOST'')
           (\<lambda>ise_host. shell_session h ise_host (test_globals h)),
         log_info ''Uploading file to S3 bucket'',
         test_publish h,
         log_info ''ISE export process completed successfully''])]"

definition run_test :: "host \<Rightarrow> world \<Rightarrow> int \<times> world" where
  "run_test h w = (let (r, w') = test_main h w in (exit_status r, w'))"

section \<open>\<^verbatim>\<open>ise-export.py\<close>\<close>

text \<open>Python's truth value of an optional string: \<^verbatim>\<open>None\<close> and \<^verbatim>\<open>""\<close> are false.\<close>

fun truthy :: "string option \<Rightarrow> bool" where
  "truthy None = False"
| "truthy (Some s) = (s \<noteq> [])"

fun join :: "string \<Rightarrow> string list \<Rightarrow> string" where
  "join sep [] = []"
| "join sep [x] = x"
| "join sep (x # y # ys) = x @ sep @ join sep (y # ys)"

definition basename :: "string \<Rightarrow> string" where
  "basename p = rev (takeWhile (\<lambda>c. c \<noteq> CHR ''/'') (rev p))"

fun or_default :: "string option \<Rightarrow> string \<Rightarrow> string" where
  "or_default None d = d"
| "or_default (Some s) d = (if s \<noteq> [] then s else d)"

fun fault_text :: "fault \<Rightarrow> string" where
  "fault_text (SSHFault m) = m"
| "fault_text (ClientFault m) = m"
| "fault_text (OtherFault m) = m"

definition return_io :: "'a \<Rightarrow> 'a io" where
  "return_io a w = (Inr a, w)"

definition load_environment :: "host \<Rightarrow> string option \<Rightarrow> unit io" where
  "load_environment h env_name =
     (let env_file = (if truthy env_name
                      then script_dir h @ ''/.env.'' @ or_default env_name []
                      else script_dir h @ ''/.env'')
      in if \<not> path_exists h env_file
         then block [log_error (''Environment file not found: '' @ env_file), sys_exit 1]
         else log_info (''Loaded environment from '' @ env_file))"

text \<open>
  \<^verbatim>\<open>get_config\<close> returns a dict with seven fixed keys; it is a record here. A required
  variable that is unset or empty makes \<^verbatim>\<open>get_config\<close> exit, so a config that is returned
  holds the text of each.
\<close>

record config =
  ISE_HOST :: string
  ISE_USER :: string
  ISE_KEY :: string
  NFS_PATH :: string
  AWS_REGION :: string
  S3_BUCKET :: string
  S3_PREFIX :: string

definition required_vars :: "string list" where
  "required_vars = [''ISE_HOST'', ''ISE_USER'', ''ISE_KEY'', ''NFS_PATH'', ''AWS_REGION'',
     ''S3_BUCKET'']"

definition get_config :: "host \<Rightarrow> config io" where
  "get_config h =
     (let missing_vars = filter (\<lambda>var. \<not> truthy (getenv h var)) required_vars
      in if missing_vars \<noteq> []
         then and_then
                (log_error (''Missing required environment variables: ''
                   @ join '', '' missing_vars))
                (\<lambda>u. sys_exit 1)
         else return_io
           \<lparr>ISE_HOST = or_default (getenv h ''ISE_HOST'') [],
            ISE_USER = or_default (getenv h ''ISE_USER'') [],
            ISE_KEY = or_default (getenv h ''ISE_KEY'') [],
            NFS_PATH = or_default (getenv h ''NFS_PATH'') [],
            AWS_REGION = or_default (getenv h ''AWS_REGION'') [],
            S3_BUCKET = or_default (getenv h ''S3_BUCKET'') [],
            S3_PREFIX = (case getenv h ''S3_PREFIX'' of None \<Rightarrow> ''ise-reports/'' | Some v \<Rightarrow> v)\<rparr>)"

definition check_aws_credentials :: "host \<Rightarrow> bool io" where
  "check_aws_credentials h w =
     (case aws_credentials h of
        Inl f \<Rightarrow>
          (Inr False, logging_error (''Error checking AWS credentials: '' @ fault_text f) w)
      | Inr found \<Rightarrow>
          if \<not> found
          then (Inr False,
                logging_error ''AWS credentials not found. Please configure AWS credentials.'' w)
          else (Inr True, w))"

definition upload_to_s3 ::
  "host \<Rightarrow> string \<Rightarrow> string \<Rightarrow> string option \<Rightarrow> string option \<Rightarrow> bool io" where
  "upload_to_s3 h file_path bucket object_name prefix' w =
     (let object_name1 = (case object_name of None \<Rightarrow> basename file_path | Some n \<Rightarrow> n);
          object_name2 = (if truthy prefix' then or_default prefix' [] @ object_name1
                          else object_name1);
          w1 = record_call (S3Upload file_path bucket object_name2) w
      in case s3_upload h file_path bucket object_name2 of
           None \<Rightarrow>
             (Inr True,
              logging_info (''Successfully uploaded '' @ file_path @ '' to s3://'' @ bucket
                 @ ''/'' @ object_name2) w1)
         | Some (ClientFault m) \<Rightarrow> (Inr False, logging_error (''Error uploading to S3: '' @ m) w1)
         | Some (SSHFault m) \<Rightarrow> (Inl (SSHException m), w1)
         | Some (OtherFault m) \<Rightarrow> (Inl (OtherException m), w1))"

definition export_publish :: "host \<Rightarrow> config \<Rightarrow> unit io" where
  "export_publish h config =
     and_then (name_value (export_globals h) ''CSV_FILE'') (\<lambda>csv_file.
       (\<lambda>w. let path = NFS_PATH config @ ''/'' @ csv_file;
                 w1 = record_call (PathExists path) w
             in if path_exists h path then
                  and_then (name_value (export_globals h) ''CSV_FILE'') (\<lambda>csv_file.
                  and_then (upload_to_s3 h (NFS_PATH config @ ''/'' @ csv_file)
                              (S3_BUCKET config) None (Some (S3_PREFIX config))) (\<lambda>uploaded.
                    if \<not> uploaded
                    then block [log_error ''Failed to upload file to S3'', sys_exit 1]
                    else return_io ())) w1
                else
                  and_then (name_value (export_globals h) ''CSV_FILE'') (\<lambda>csv_file.
                    block [log_error (''File not found: '' @ NFS_PATH config @ ''/'' @ csv_file),
                           sys_exit 1]) w1))"

definition export_main :: "host \<Rightarrow> unit io" where
  "export_main h =
     (let env_name = (if length (argv h) > 1 then Some (argv h ! 1) else None)
      in and_then (load_environment h env_name) (\<lambda>u.
         and_then (get_config h) (\<lambda>config. block
           [log_info (''Starting ISE export process for environment: ''
              @ or_default env_name ''default''),
            and_then (check_aws_credentials h)
              (\<lambda>found. if \<not> found then sys_exit 1 else return_io ()),
            try_except (block
              [shell_session h (ISE_HOST config) (export_globals h),
               log_info ''Uploading file to S3 bucket'',
               export_publish h config,
               log_info ''ISE export process completed successfully''])])))"

definition run_export :: "host \<Rightarrow> world \<Rightarrow> int \<times> world" where
  "run_export h w = (let (r, w') = export_main h w in (exit_status r, w'))"

section \<open>Describing runs\<close>

text \<open>
  The definitions from here on are not part of the scripts: they are the vocabulary in
  which the properties below are stated and proved.
\<close>

subsection \<open>What a call reads\<close>

text \<open>
  The text of the chunks among some events, in order; whether none of the events is a
  failing read; and the lines the matcher logs for them.
\<close>

fun chunks :: "event list \<Rightarrow> string" where
  "chunks [] = []"
| "chunks (Ready c # es) = c @ chunks es"
| "chunks (NotReady # es) = chunks es"
| "chunks (RecvError f # es) = chunks es"

fun no_fault :: "event list \<Rightarrow> bool" where
  "no_fault [] = True"
| "no_fault (RecvError f # es) = False"
| "no_fault (NotReady # es) = no_fault es"
| "no_fault (Ready c # es) = no_fault es"

fun received :: "event list \<Rightarrow> (level \<times> string) list" where
  "received [] = []"
| "received (Ready c # es) = (INFO, ''Received: '' @ strip c) # received es"
| "received (NotReady # es) = received es"
| "received (RecvError f # es) = received es"

text \<open>
  \<open>run_facts\<close> relates the world before a run of the loop to its result: \<open>m\<close> events were
  consumed, the buffer is the text of their chunks, each chunk was logged, the trace is
  untouched; \<^verbatim>\<open>True\<close> comes with the prompt in the buffer right after a chunk was read,
  \<^verbatim>\<open>False\<close> only once the timeout has elapsed, an exception only from a failing read.
\<close>

definition run_facts ::
  "world \<Rightarrow> string \<Rightarrow> rat \<Rightarrow> rat \<Rightarrow> string \<Rightarrow> (exn + bool) \<Rightarrow> string \<Rightarrow> world \<Rightarrow> nat \<Rightarrow> bool" where
  "run_facts w p t s b r buf w' m \<longleftrightarrow>
     m \<le> length (incoming w) \<and> incoming w' = drop m (incoming w) \<and>
     buf = b @ chunks (take m (incoming w)) \<and>
     log w' = log w @ received (take m (incoming w)) \<and>
     trace w' = trace w \<and> clock w \<le> clock w' \<and>
     (r = Inr True \<longrightarrow> (\<exists>k c. m = Suc k \<and> incoming w ! k = Ready c) \<and> str_in p buf) \<and>
     (r = Inr False \<longrightarrow> t \<le> clock w' - s) \<and>
     (\<forall>e. r = Inl e \<longrightarrow> (\<exists>k f. m = Suc k \<and> incoming w ! k = RecvError f \<and> e = raised f))"

subsection \<open>Sample channels\<close>


definition split_channel :: world where
  "split_channel = \<lparr>clock = 0, incoming = [Ready ''ise-ppan'', NotReady, Ready ''-cx/admin#''],
     log = [], trace = []\<rparr>"

definition ready_channel :: world where
  "ready_channel = \<lparr>clock = 7, incoming = [Ready ''ise-ppan-cx/admin#''], log = [], trace = []\<rparr>"

definition stale_session :: world where
  "stale_session = \<lparr>clock = 0,
     incoming = [Ready ''Selection configuration option ise-ppan-cx/admin#''],
     log = [], trace = []\<rparr>"

definition early_channel :: world where
  "early_channel = \<lparr>clock = 0, incoming = [Ready ''x#''], log = [], trace = []\<rparr>"

definition late_channel :: world where
  "late_channel = \<lparr>clock = 0, incoming = [NotReady, Ready ''yy#''], log = [], trace = []\<rparr>"

subsection \<open>Postconditions\<close>

text \<open>
  A postcondition speaks about how a statement ended, the calls it added to the trace and
  the world it left. \<open>sat s Q\<close>: whatever the world, running \<open>s\<close> only adds calls to the
  trace, and \<open>Q\<close> holds of the outcome. \<open>seq_post\<close> is the postcondition of a statement
  followed by a suite, \<open>caught\<close> that of a suite under the two \<^verbatim>\<open>except\<close> clauses, and
  \<open>quiet\<close> says that a call leaves the trace alone and raises at most \<^verbatim>\<open>SystemExit(1)\<close>.
\<close>

type_synonym post = "(exn + unit) \<Rightarrow> call list \<Rightarrow> world \<Rightarrow> bool"

definition sat :: "unit io \<Rightarrow> post \<Rightarrow> bool" where
  "sat s Q \<longleftrightarrow> (\<forall>w r w'. s w = (r, w') \<longrightarrow> (\<exists>cs. trace w' = trace w @ cs \<and> Q r cs w'))"

definition seq_post :: "post \<Rightarrow> post \<Rightarrow> post" where
  "seq_post Q R r cs w' \<longleftrightarrow>
     ((\<exists>e. r = Inl e) \<and> Q r cs w') \<or>
     (\<exists>cs1 cs2 w1. cs = cs1 @ cs2 \<and> Q (Inr ()) cs1 w1 \<and> R r cs2 w')"

text \<open>The exception raised by reading an unbound name, and the line the handler logs for it.\<close>

definition unbound :: "string \<Rightarrow> exn" where
  "unbound n = NameError (''name '' @ [QUOTE] @ n @ [QUOTE] @ '' is not defined'')"

definition unbound_line :: string where
  "unbound_line = ''An error occurred: name '' @ [QUOTE] @ ''CSV_FILE'' @ [QUOTE]
     @ '' is not defined''"

subsection \<open>The calls of a session\<close>

text \<open>
  The calls of a run in which nothing fails, in the order of the source; the positions in
  it at which a library call can raise; for each of the six waits, its position, the
  prompt it waits for and the message logged when it times out; and for each of the four
  sends, its position, the prompt of the wait before it, the command text and the prompt
  of the wait after it. \<open>gen_trace\<close> and \<open>gen_waits\<close> are the same lists with the texts
  left open.
\<close>

definition full_trace :: "string \<Rightarrow> call list" where
  "full_trace csv_file =
     [Connect, InvokeShell,
      Wait ''ise-ppan-cx/admin#'' True,
      Send (''application configure ise'' @ [NL]),
      Wait ''Selection configuration option'' True,
      Send (''16'' @ [NL]),
      Wait ''Starting to generate All Endpoints report'' True,
      Wait ''Completed generating All Endpoints report'' True,
      Send (''0'' @ [NL]),
      Wait ''ise-ppan-cx/admin#'' True,
      Send (''copy disk:/'' @ csv_file @ '' repository NFS'' @ [NL]),
      Wait ''ise-ppan-cx/admin#'' True,
      CloseChannel, CloseSSH]"

definition fault_points :: "nat list" where
  "fault_points = [1, 2, 4, 6, 7, 9, 11]"

definition wait_points :: "(nat \<times> string \<times> string) list" where
  "wait_points =
     [(2, ''ise-ppan-cx/admin#'', ''Timeout waiting for initial prompt''),
      (4, ''Selection configuration option'', ''Timeout waiting for menu''),
      (6, ''Starting to generate All Endpoints report'', ''Timeout waiting for report start''),
      (7, ''Completed generating All Endpoints report'',
          ''Timeout waiting for report completion''),
      (9, ''ise-ppan-cx/admin#'', ''Timeout waiting for admin prompt''),
      (11, ''ise-ppan-cx/admin#'', ''Timeout waiting for copy completion'')]"

definition gen_trace where
  "gen_trace p0 c1 p1 c2 p2 p3 c4 p4 c5 p5 =
     [Connect, InvokeShell, Wait p0 True, Send c1, Wait p1 True, Send c2, Wait p2 True,
      Wait p3 True, Send c4, Wait p4 True, Send c5, Wait p5 True, CloseChannel, CloseSSH]"


definition gen_waits where
  "gen_waits p0 m0 p1 m1 p2 m2 p3 m3 p4 m4 p5 m5 =
     [(2 :: nat, p0 :: string, m0 :: string), (4, p1, m1), (6, p2, m2), (7, p3, m3),
      (9, p4, m4), (11, p5, m5)]"

subsection \<open>How runs end\<close>

text \<open>
  How a shell session can end, given what \<^verbatim>\<open>CSV_FILE\<close> is bound to (if anything): a
  library call raised; a wait timed out and the script exited; the name was unbound; or
  the session ran to its end. \<open>body_post\<close>, \<open>test_post\<close> and \<open>export_post\<close> say the same of
  the \<^verbatim>\<open>try\<close> suite of \<^verbatim>\<open>ise-export-test.py\<close> and of whole runs of the two scripts, with
  the exit status in place of the exception.
\<close>

definition is_fault :: "exn + unit \<Rightarrow> bool" where
  "is_fault r \<longleftrightarrow> (\<exists>f. r = Inl (raised f))"

definition faulted :: "nat list \<Rightarrow> string \<Rightarrow> call list \<Rightarrow> bool" where
  "faulted points csv_file cs \<longleftrightarrow> (\<exists>k \<in> set points. cs = take k (full_trace csv_file))"

definition timed_out ::
  "(nat \<times> string \<times> string) list \<Rightarrow> string \<Rightarrow> call list \<Rightarrow> world \<Rightarrow> bool" where
  "timed_out points csv_file cs w' \<longleftrightarrow>
     (\<exists>(k, p, m) \<in> set points.
        cs = take k (full_trace csv_file) @ [Wait p False] \<and> last (log w') = (ERROR, m))"

definition session_post :: "string option \<Rightarrow> post" where
  "session_post bound r cs w' \<longleftrightarrow>
     (case bound of
        None \<Rightarrow>
          (is_fault r \<and> faulted (take 6 fault_points) [] cs) \<or>
          (r = Inl (SystemExit 1) \<and> timed_out (take 5 wait_points) [] cs w') \<or>
          (r = Inl (unbound ''CSV_FILE'') \<and> cs = take 10 (full_trace []))
      | Some csv_file \<Rightarrow>
          (is_fault r \<and> faulted fault_points csv_file cs) \<or>
          (r = Inl (SystemExit 1) \<and> timed_out wait_points csv_file cs w') \<or>
          (r = Inr () \<and> cs = full_trace csv_file))"

text \<open>
  What the handlers of \<^verbatim>\<open>main\<close> log for an exception, and for a library fault; the file
  name, the path and the upload command of \<^verbatim>\<open>ise-export-test.py\<close>.
\<close>

fun handler_text :: "exn \<Rightarrow> string option" where
  "handler_text (SSHException m) = Some (''SSH error: '' @ m)"
| "handler_text (ClientError m) = Some (''An error occurred: '' @ m)"
| "handler_text (NameError m) = Some (''An error occurred: '' @ m)"
| "handler_text (OtherException m) = Some (''An error occurred: '' @ m)"
| "handler_text (SystemExit code) = None"

definition caught :: "post \<Rightarrow> post" where
  "caught Q r cs w' \<longleftrightarrow>
     (r = Inr () \<and> Q r cs w') \<or>
     (\<exists>code. r = Inl (SystemExit code) \<and> Q r cs w') \<or>
     (r = Inl (SystemExit 1) \<and>
        (\<exists>e w1 m. Q (Inl e) cs w1 \<and> handler_text e = Some m \<and> last (log w') = (ERROR, m)))"

definition test_csv :: "host \<Rightarrow> string" where
  "test_csv h = ''FullReport_'' @ today h @ ''.csv''"

fun fault_line :: "fault \<Rightarrow> string" where
  "fault_line (SSHFault m) = ''SSH error: '' @ m"
| "fault_line (ClientFault m) = ''An error occurred: '' @ m"
| "fault_line (OtherFault m) = ''An error occurred: '' @ m"

definition test_path :: "host \<Rightarrow> string" where
  "test_path h = ''/home/nfsshare'' @ ''/'' @ test_csv h"

definition test_upload_cmd :: "host \<Rightarrow> string" where
  "test_upload_cmd h =
     ''curl -X PUT -T '' @ [DQUOTE] @ test_path h @ [DQUOTE] @ '' '' @ [DQUOTE]
       @ ''https://your-s3-bucket.s3.amazonaws.com/FullReport_'' @ today h
       @ ''.csv?AWSAccessKeyId=...'' @ [DQUOTE]"

definition body_post :: "host \<Rightarrow> post" where
  "body_post h r cs w' \<longleftrightarrow>
     (is_fault r \<and> faulted fault_points (test_csv h) cs) \<or>
     (r = Inl (SystemExit 1) \<and> timed_out wait_points (test_csv h) cs w') \<or>
     (r = Inl (SystemExit 1) \<and> \<not> path_exists h (test_path h) \<and>
        cs = full_trace (test_csv h) @ [PathExists (test_path h)] \<and>
        last (log w') = (ERROR, ''File not found: '' @ test_path h)) \<or>
     (r = Inl (SystemExit 1) \<and> path_exists h (test_path h) \<and>
        os_system h (test_upload_cmd h) \<noteq> 0 \<and>
        cs = full_trace (test_csv h) @ [PathExists (test_path h), OsSystem (test_upload_cmd h)] \<and>
        last (log w') = (ERROR, ''Failed to upload file to S3'')) \<or>
     (r = Inr () \<and> path_exists h (test_path h) \<and> os_system h (test_upload_cmd h) = 0 \<and>
        cs = full_trace (test_csv h) @ [PathExists (test_path h), OsSystem (test_upload_cmd h)])"

definition test_post :: "host \<Rightarrow> int \<Rightarrow> call list \<Rightarrow> world \<Rightarrow> bool" where
  "test_post h status cs w' \<longleftrightarrow>
     (status = 1 \<and> faulted fault_points (test_csv h) cs \<and>
        (\<exists>f. last (log w') = (ERROR, fault_line f))) \<or>
     (status = 1 \<and> timed_out wait_points (test_csv h) cs w') \<or>
     (status = 1 \<and> \<not> path_exists h (test_path h) \<and>
        cs = full_trace (test_csv h) @ [PathExists (test_path h)] \<and>
        last (log w') = (ERROR, ''File not found: '' @ test_path h)) \<or>
     (status = 1 \<and> path_exists h (test_path h) \<and> os_system h (test_upload_cmd h) \<noteq> 0 \<and>
        cs = full_trace (test_csv h) @ [PathExists (test_path h), OsSystem (test_upload_cmd h)] \<and>
        last (log w') = (ERROR, ''Failed to upload file to S3'')) \<or>
     (status = 0 \<and> path_exists h (test_path h) \<and> os_system h (test_upload_cmd h) = 0 \<and>
        cs = full_trace (test_csv h) @ [PathExists (test_path h), OsSystem (test_upload_cmd h)])"

definition quiet :: "'a io \<Rightarrow> bool" where
  "quiet m \<longleftrightarrow>
     (\<forall>w r w'. m w = (r, w') \<longrightarrow> trace w' = trace w \<and> (\<forall>e. r = Inl e \<longrightarrow> e = SystemExit 1))"

definition export_post :: "int \<Rightarrow> call list \<Rightarrow> world \<Rightarrow> bool" where
  "export_post status cs w' \<longleftrightarrow>
     status = 1 \<and>
     (cs = [] \<or>
      (faulted (take 6 fault_points) [] cs \<and> (\<exists>f. last (log w') = (ERROR, fault_line f))) \<or>
      timed_out (take 5 wait_points) [] cs w' \<or>
      (cs = take 10 (full_trace []) \<and> last (log w') = (ERROR, unbound_line)))"

text \<open>
  Every run's trace is a beginning of \<open>full_trace\<close> followed by at most a failed wait or,
  after the whole session, the file check and the upload.
\<close>

definition shape :: "string \<Rightarrow> call list \<Rightarrow> bool" where
  "shape csv_file cs \<longleftrightarrow>
     (\<exists>k extra. cs = take k (full_trace csv_file) @ extra \<and>
        ((k \<le> 11 \<and> extra = []) \<or>
         (\<exists>q m. (k, q, m) \<in> set wait_points \<and> extra = [Wait q False]) \<or>
         (k = 14 \<and> (\<exists>a b. extra = [] \<or> extra = [PathExists a] \<or>
                          extra = [PathExists a, OsSystem b]))))"



subsection \<open>Sample hosts and worlds\<close>

text \<open>
  A host for \<^verbatim>\<open>ise-export-test.py\<close> on which the report file is absent, the same host with
  the file present, and a host for \<^verbatim>\<open>ise-export.py prod\<close> with its environment file and
  all required variables. A channel that stays silent; one that answers the first three
  waits and then stalls; one that answers all six.
\<close>

definition lab_host :: host where
  "lab_host = \<lparr>argv = [''ise-export-test.py''], script_dir = ''/opt/ise'',
     path_exists = (\<lambda>p. False), getenv = (\<lambda>v. None), expanduser = (\<lambda>p. p),
     aws_credentials = Inr True, connect_fault = None, shell_fault = None,
     s3_upload = (\<lambda>f b k. None), os_system = (\<lambda>c. 0), today = ''04-Nov-2026'',
     str_of = (\<lambda>n. n)\<rparr>"

definition nfs_host :: host where
  "nfs_host = lab_host\<lparr>path_exists := (\<lambda>p. True)\<rparr>"

definition cron_host :: host where
  "cron_host = \<lparr>argv = [''ise-export.py'', ''prod''], script_dir = ''/opt/ise'',
     path_exists = (\<lambda>p. True),
     getenv = map_of [(''ISE_HOST'', ''ise.example.net''), (''ISE_USER'', ''iseadmin''),
       (''ISE_KEY'', ''~/.ssh/ise''), (''NFS_PATH'', ''/home/nfsshare''),
       (''AWS_REGION'', ''us-east-1''), (''S3_BUCKET'', ''ise-reports-bucket'')],
     expanduser = (\<lambda>p. p), aws_credentials = Inr True, connect_fault = None,
     shell_fault = None, s3_upload = (\<lambda>f b k. None), os_system = (\<lambda>c. 0),
     today = ''04-Nov-2026'', str_of = (\<lambda>n. n)\<rparr>"

definition silent_world :: world where
  "silent_world = \<lparr>clock = 0, incoming = [], log = [], trace = []\<rparr>"

definition stalled_world :: world where
  "stalled_world = \<lparr>clock = 0,
     incoming = [Ready ''ise-ppan-cx/admin#'', Ready ''Selection configuration option'',
                 Ready ''Starting to generate All Endpoints report''],
     log = [], trace = []\<rparr>"

definition happy_world :: world where
  "happy_world = \<lparr>clock = 0,
     incoming = [Ready ''ise-ppan-cx/admin#'', Ready ''Selection configuration option'',
                 Ready ''Starting to generate All Endpoints report'',
                 Ready ''Completed generating All Endpoints report'',
                 Ready ''ise-ppan-cx/admin#'', Ready ''ise-ppan-cx/admin#''],
     log = [], trace = []\<rparr>"

section \<open>The prompt matcher: lemmas\<close>

lemma str_in_sublist: "str_in p s \<longleftrightarrow> sublist p s"
  by (induction s) (simp_all add: sublist_Cons_right)

lemma str_in_append: "str_in p s \<Longrightarrow> str_in p (s @ u)"
  unfolding str_in_sublist sublist_def by (metis append.assoc)

lemma polls_left_zero: "\<not> now - s < t \<Longrightarrow> polls_left s t now = 0"
  unfolding polls_left_def by simp

lemma polls_left_pos: "polls_left s t now = Suc n \<Longrightarrow> now - s < t"
  using polls_left_zero by fastforce

lemma wait_loop_expired:
  "\<not> clock w - s < t \<Longrightarrow> wait_loop w p t s b = (Inr False, b, w)"
  by (subst wait_loop.simps) (simp add: time_time_def)

lemma wait_loop_empty:
  "clock w - s < t \<Longrightarrow> incoming w = [] \<Longrightarrow>
   wait_loop w p t s b = wait_loop (time_sleep (1/10) w) p t s b"
  by (subst wait_loop.simps) (simp add: time_time_def poll_def)

lemma wait_loop_idle:
  "clock w - s < t \<Longrightarrow> incoming w = NotReady # es \<Longrightarrow>
   wait_loop w p t s b = wait_loop (time_sleep (1/10) (w\<lparr>incoming := es\<rparr>)) p t s b"
  by (subst wait_loop.simps) (simp add: time_time_def poll_def)

lemma wait_loop_match:
  "clock w - s < t \<Longrightarrow> incoming w = Ready c # es \<Longrightarrow> str_in p (b @ c) \<Longrightarrow>
   wait_loop w p t s b =
     (Inr True, b @ c, logging_info (''Received: '' @ strip c) (w\<lparr>incoming := es\<rparr>))"
  by (subst wait_loop.simps) (simp add: time_time_def poll_def)

lemma wait_loop_more:
  "clock w - s < t \<Longrightarrow> incoming w = Ready c # es \<Longrightarrow> \<not> str_in p (b @ c) \<Longrightarrow>
   wait_loop w p t s b =
     wait_loop (time_sleep (1/10) (logging_info (''Received: '' @ strip c) (w\<lparr>incoming := es\<rparr>)))
       p t s (b @ c)"
  by (subst wait_loop.simps) (simp add: time_time_def poll_def)

lemma wait_loop_fault:
  "clock w - s < t \<Longrightarrow> incoming w = RecvError f # es \<Longrightarrow>
   wait_loop w p t s b = (Inl (raised f), b, w\<lparr>incoming := es\<rparr>)"
  by (subst wait_loop.simps) (simp add: time_time_def poll_def)

lemma wait_loop_timeout:
  "polls_left s t (clock w) = n \<Longrightarrow> no_fault (take n (incoming w)) \<Longrightarrow>
   \<not> str_in p (b @ chunks (take n (incoming w))) \<Longrightarrow>
   \<exists>w'. wait_loop w p t s b = (Inr False, b @ chunks (take n (incoming w)), w') \<and>
        clock w' = clock w + of_nat n / 10 \<and> incoming w' = drop n (incoming w) \<and>
        trace w' = trace w"
proof (induction n arbitrary: w b)
  case 0
  then have "\<not> clock w - s < t"
    using polls_left_step by fastforce
  then show ?case
    by (simp add: wait_loop_expired)
next
  case (Suc n)
  then have live: "clock w - s < t"
    by (simp add: polls_left_pos)
  then have left: "polls_left s t (clock w + 1/10) = n"
    using Suc.prems(1) polls_left_step by fastforce
  show ?case
  proof (cases "incoming w")
    case Nil
    let ?w1 = "time_sleep (1/10) w"
    have "\<exists>w'. wait_loop ?w1 p t s b = (Inr False, b @ chunks (take n (incoming ?w1)), w') \<and>
        clock w' = clock ?w1 + of_nat n / 10 \<and> incoming w' = drop n (incoming ?w1) \<and>
        trace w' = trace ?w1"
      using Suc.prems Nil left by (intro Suc.IH) (simp_all add: time_sleep_def)
    then show ?thesis
      using Nil live by (auto simp: wait_loop_empty time_sleep_def field_simps)
  next
    case (Cons e es)
    show ?thesis
    proof (cases e)
      case NotReady
      let ?w1 = "time_sleep (1/10) (w\<lparr>incoming := es\<rparr>)"
      have "\<exists>w'. wait_loop ?w1 p t s b = (Inr False, b @ chunks (take n (incoming ?w1)), w') \<and>
          clock w' = clock ?w1 + of_nat n / 10 \<and> incoming w' = drop n (incoming ?w1) \<and>
          trace w' = trace ?w1"
        using Suc.prems Cons NotReady left by (intro Suc.IH) (simp_all add: time_sleep_def)
      then show ?thesis
        using Cons NotReady live by (auto simp: wait_loop_idle time_sleep_def field_simps)
    next
      case (Ready c)
      let ?w1 = "time_sleep (1/10) (logging_info (''Received: '' @ strip c) (w\<lparr>incoming := es\<rparr>))"
      have nomatch: "\<not> str_in p (b @ c)"
        using Suc.prems(3) Cons Ready str_in_append [of p "b @ c" "chunks (take n es)"] by auto
      have "\<exists>w'. wait_loop ?w1 p t s (b @ c) =
            (Inr False, (b @ c) @ chunks (take n (incoming ?w1)), w') \<and>
          clock w' = clock ?w1 + of_nat n / 10 \<and> incoming w' = drop n (incoming ?w1) \<and>
          trace w' = trace ?w1"
        using Suc.prems Cons Ready left
        by (intro Suc.IH) (simp_all add: time_sleep_def logging_info_def)
      then show ?thesis
        using Cons Ready live nomatch
        by (auto simp: wait_loop_more time_sleep_def logging_info_def field_simps)
    next
      case (RecvError f)
      then show ?thesis
        using Suc.prems(2) Cons by simp
    qed
  qed
qed

lemma wait_loop_found:
  "k < polls_left s t (clock w) \<Longrightarrow> k < length (incoming w) \<Longrightarrow>
   incoming w ! k = Ready c \<Longrightarrow> no_fault (take k (incoming w)) \<Longrightarrow>
   str_in p (b @ chunks (take (Suc k) (incoming w))) \<Longrightarrow>
   \<exists>j w'. j \<le> k \<and>
      wait_loop w p t s b = (Inr True, b @ chunks (take (Suc j) (incoming w)), w')"
proof (induction k arbitrary: w b)
  case 0
  then obtain es where inc: "incoming w = Ready c # es"
    by (cases "incoming w") auto
  have live: "clock w - s < t"
    using 0(1) polls_left_zero by fastforce
  show ?case
    using 0 inc live by (auto simp: wait_loop_match)
next
  case (Suc k)
  then obtain e es where inc: "incoming w = e # es"
    by (cases "incoming w") auto
  have live: "clock w - s < t"
    using Suc.prems(1) polls_left_zero by fastforce
  then have left: "k < polls_left s t (clock w + 1/10)"
    using Suc.prems(1) polls_left_step [OF live] by simp
  show ?case
  proof (cases e)
    case NotReady
    let ?w1 = "time_sleep (1/10) (w\<lparr>incoming := es\<rparr>)"
    have "\<exists>j w'. j \<le> k \<and>
      wait_loop ?w1 p t s b = (Inr True, b @ chunks (take (Suc j) (incoming ?w1)), w')"
      using Suc.prems inc NotReady left by (intro Suc.IH) (simp_all add: time_sleep_def)
    then obtain j w' where "j \<le> k"
      "wait_loop ?w1 p t s b = (Inr True, b @ chunks (take (Suc j) es), w')"
      by (auto simp: time_sleep_def)
    then have "Suc j \<le> Suc k \<and>
      wait_loop w p t s b = (Inr True, b @ chunks (take (Suc (Suc j)) (incoming w)), w')"
      using inc NotReady live by (simp add: wait_loop_idle)
    then show ?thesis by blast
  next
    case (Ready c0)
    show ?thesis
    proof (cases "str_in p (b @ c0)")
      case True
      then have "(0::nat) \<le> Suc k \<and> wait_loop w p t s b =
          (Inr True, b @ chunks (take (Suc 0) (incoming w)),
           logging_info (''Received: '' @ strip c0) (w\<lparr>incoming := es\<rparr>))"
        using inc Ready live by (simp add: wait_loop_match)
      then show ?thesis by blast
    next
      case False
      let ?w1 = "time_sleep (1/10) (logging_info (''Received: '' @ strip c0) (w\<lparr>incoming := es\<rparr>))"
      have "\<exists>j w'. j \<le> k \<and>
        wait_loop ?w1 p t s (b @ c0) =
          (Inr True, (b @ c0) @ chunks (take (Suc j) (incoming ?w1)), w')"
        using Suc.prems inc Ready left
        by (intro Suc.IH) (simp_all add: time_sleep_def logging_info_def)
      then obtain j w' where "j \<le> k"
        "wait_loop ?w1 p t s (b @ c0) = (Inr True, b @ c0 @ chunks (take (Suc j) es), w')"
        by (auto simp: time_sleep_def logging_info_def)
      then have "Suc j \<le> Suc k \<and>
        wait_loop w p t s b = (Inr True, b @ chunks (take (Suc (Suc j)) (incoming w)), w')"
        using inc Ready live False by (simp add: wait_loop_more)
      then show ?thesis by blast
    qed
  next
    case (RecvError f)
    then show ?thesis
      using Suc.prems(4) inc by simp
  qed
qed

lemma wait_loop_run:
  "polls_left s t (clock w) = n \<Longrightarrow> wait_loop w p t s b = (r, buf, w') \<Longrightarrow>
   \<exists>m. run_facts w p t s b r buf w' m"
proof (induction n arbitrary: w b)
  case 0
  then have "\<not> clock w - s < t"
    using polls_left_step by fastforce
  then have "run_facts w p t s b r buf w' 0"
    using 0(2) by (auto simp: wait_loop_expired run_facts_def)
  then show ?case ..
next
  case (Suc n)
  then have live: "clock w - s < t"
    by (simp add: polls_left_pos)
  then have left: "polls_left s t (clock w + 1/10) = n"
    using Suc.prems(1) polls_left_step by fastforce
  show ?case
  proof (cases "incoming w")
    case Nil
    let ?w1 = "time_sleep (1/10) w"
    have "wait_loop ?w1 p t s b = (r, buf, w')"
      using Suc.prems(2) Nil live by (simp add: wait_loop_empty)
    moreover have "polls_left s t (clock ?w1) = n"
      using left by (simp add: time_sleep_def)
    ultimately obtain m where "run_facts ?w1 p t s b r buf w' m"
      using Suc.IH by blast
    then have "run_facts w p t s b r buf w' 0"
      using Nil by (auto simp: run_facts_def time_sleep_def)
    then show ?thesis ..
  next
    case (Cons e es)
    show ?thesis
    proof (cases e)
      case NotReady
      let ?w1 = "time_sleep (1/10) (w\<lparr>incoming := es\<rparr>)"
      have "wait_loop ?w1 p t s b = (r, buf, w')"
        using Suc.prems(2) Cons NotReady live by (simp add: wait_loop_idle)
      moreover have "polls_left s t (clock ?w1) = n"
        using left by (simp add: time_sleep_def)
      ultimately obtain m where "run_facts ?w1 p t s b r buf w' m"
        using Suc.IH by blast
      then have "run_facts w p t s b r buf w' (Suc m)"
        using Cons NotReady by (auto simp: run_facts_def time_sleep_def)
      then show ?thesis ..
    next
      case (Ready c)
      show ?thesis
      proof (cases "str_in p (b @ c)")
        case True
        then have "wait_loop w p t s b =
           (Inr True, b @ c, logging_info (''Received: '' @ strip c) (w\<lparr>incoming := es\<rparr>))"
          using Cons Ready live by (simp add: wait_loop_match)
        then have "run_facts w p t s b r buf w' (Suc 0)"
          using Suc.prems(2) Cons Ready True by (auto simp: run_facts_def logging_info_def)
        then show ?thesis ..
      next
        case False
        let ?w1 = "time_sleep (1/10) (logging_info (''Received: '' @ strip c) (w\<lparr>incoming := es\<rparr>))"
        have "wait_loop ?w1 p t s (b @ c) = (r, buf, w')"
          using Suc.prems(2) Cons Ready live False by (simp add: wait_loop_more)
        moreover have "polls_left s t (clock ?w1) = n"
          using left by (simp add: time_sleep_def logging_info_def)
        ultimately obtain m where "run_facts ?w1 p t s (b @ c) r buf w' m"
          using Suc.IH by blast
        then have "run_facts w p t s b r buf w' (Suc m)"
          using Cons Ready by (auto simp: run_facts_def time_sleep_def logging_info_def)
        then show ?thesis ..
      qed
    next
      case (RecvError f)
      then have "wait_loop w p t s b = (Inl (raised f), b, w\<lparr>incoming := es\<rparr>)"
        using Cons live by (simp add: wait_loop_fault)
      then have "run_facts w p t s b r buf w' (Suc 0)"
        using Suc.prems(2) Cons RecvError by (auto simp: run_facts_def)
      then show ?thesis ..
    qed
  qed
qed

lemma polls_at_start: "polls_left (clock w) t (clock w) = nat \<lceil>t * 10\<rceil>"
  by (simp add: polls_left_def)


section \<open>The prompt matcher: properties\<close>



text \<open>
  C2. If poll number \<open>k\<close> of a call (counting from 0) falls within the timeout and reads a
  chunk, no earlier read failed, and the prompt occurs in the concatenation of the chunks
  read up to and including that one (in whatever way the reads cut it, also when no
  chunk holds it whole), then the call returns \<^verbatim>\<open>True\<close>, at that poll or an earlier one;
  the buffer at that moment is the concatenation of all chunks read so far in the call.
\<close>

theorem wait_for_prompt_matches_across_reads:
  assumes "k < nat \<lceil>t * 10\<rceil>"
    and "k < length (incoming w)"
    and "incoming w ! k = Ready c"
    and "no_fault (take k (incoming w))"
    and "str_in prompt (chunks (take (Suc k) (incoming w)))"
  shows "\<exists>j w'. j \<le> k \<and>
           wait_loop w prompt t (time_time w) [] =
             (Inr True, chunks (take (Suc j) (incoming w)), w') \<and>
           wait_for_prompt w prompt t = (Inr True, w')"
proof -
  have "k < polls_left (clock w) t (clock w)"
    using assms(1) by (simp add: polls_at_start)
  then obtain j w' where "j \<le> k"
    and "wait_loop w prompt t (clock w) [] = (Inr True, [] @ chunks (take (Suc j) (incoming w)), w')"
    using wait_loop_found [of k "clock w" t w c prompt "[]"] assms(2-5) by auto
  then show ?thesis
    by (auto simp: wait_for_prompt_def time_time_def)
qed

theorem wait_for_prompt_matches_across_reads_witness:
  "\<not> str_in ''ise-ppan-cx/admin#'' ''ise-ppan'' \<and>
   \<not> str_in ''ise-ppan-cx/admin#'' ''-cx/admin#'' \<and>
   fst (wait_for_prompt split_channel ''ise-ppan-cx/admin#'' 30) = Inr True"
proof -
  have a: "2 < nat \<lceil>(30 :: rat) * 10\<rceil>" by simp
  have b: "2 < length (incoming split_channel)" by (simp add: split_channel_def)
  have c: "incoming split_channel ! 2 = Ready ''-cx/admin#''" by (simp add: split_channel_def)
  have d: "no_fault (take 2 (incoming split_channel))" by (simp add: split_channel_def)
  have e: "str_in ''ise-ppan-cx/admin#'' (chunks (take (Suc 2) (incoming split_channel)))"
    by (simp add: split_channel_def)
  have "fst (wait_for_prompt split_channel ''ise-ppan-cx/admin#'' 30) = Inr True"
    using wait_for_prompt_matches_across_reads [OF a b c d e] by auto
  then show ?thesis by simp
qed

text \<open>
  C10. With a timeout \<open>t \<le> 0\<close> the call returns \<^verbatim>\<open>False\<close> at once and leaves the world as it
  found it: nothing is read, nothing is logged, the clock has not moved.
\<close>

theorem wait_for_prompt_nonpositive_timeout:
  "t \<le> 0 \<Longrightarrow> wait_for_prompt w prompt t = (Inr False, w)"
  by (simp add: wait_for_prompt_def time_time_def wait_loop_expired)

theorem wait_for_prompt_nonpositive_timeout_witness:
  "(0::rat) \<le> 0 \<and> incoming ready_channel = [Ready ''ise-ppan-cx/admin#''] \<and>
   wait_for_prompt ready_channel ''ise-ppan-cx/admin#'' 0 = (Inr False, ready_channel) \<and>
   wait_for_prompt ready_channel ''ise-ppan-cx/admin#'' (- 5) = (Inr False, ready_channel)"
  using wait_for_prompt_nonpositive_timeout [of 0 ready_channel "''ise-ppan-cx/admin#''"]
    wait_for_prompt_nonpositive_timeout [of "- 5" ready_channel "''ise-ppan-cx/admin#''"]
  by (simp add: ready_channel_def)

lemma stale_first_call:
  "wait_loop stale_session ''ise-ppan-cx/admin#'' 30 (time_time stale_session) [] =
     (Inr True, ''Selection configuration option ise-ppan-cx/admin#'',
      \<lparr>clock = 0, incoming = [],
       log = [(INFO, ''Received: Selection configuration option ise-ppan-cx/admin#'')],
       trace = []\<rparr>)"
  by (simp add: wait_loop_match stale_session_def time_time_def logging_info_def strip_def
      isspace_def)

lemma drained_times_out:
  assumes "incoming w = []" and "p \<noteq> []"
  shows "\<exists>w'. wait_loop w p t (time_time w) [] = (Inr False, [], w')"
proof -
  have "\<exists>w'. wait_loop w p t (clock w) [] =
      (Inr False, [] @ chunks (take (nat \<lceil>t * 10\<rceil>) (incoming w)), w') \<and>
      clock w' = clock w + of_nat (nat \<lceil>t * 10\<rceil>) / 10 \<and>
      incoming w' = drop (nat \<lceil>t * 10\<rceil>) (incoming w) \<and> trace w' = trace w"
    using assms by (intro wait_loop_timeout polls_at_start) simp_all
  then show ?thesis
    using assms by (auto simp: time_time_def)
qed

text \<open>
  C5 says that the buffer survives from one call to the next. It does not: every call
  starts with \<^verbatim>\<open>buffer = ""\<close>. In \<open>stale_session\<close> the first call reads one chunk that
  holds both the prompt it waits for and the menu marker; the second call, waiting for the
  menu marker, starts from an empty buffer, reads nothing more, and times out.
\<close>

theorem buffer_reset_counterexample:
  "fst (wait_for_prompt stale_session ''ise-ppan-cx/admin#'' 30) = Inr True \<and>
   fst (snd (wait_loop stale_session ''ise-ppan-cx/admin#'' 30 (time_time stale_session) [])) =
     ''Selection configuration option ise-ppan-cx/admin#'' \<and>
   fst (wait_for_prompt (snd (wait_for_prompt stale_session ''ise-ppan-cx/admin#'' 30))
          ''Selection configuration option'' 30) = Inr False \<and>
   fst (snd (wait_loop (snd (wait_for_prompt stale_session ''ise-ppan-cx/admin#'' 30))
          ''Selection configuration option'' 30
          (time_time (snd (wait_for_prompt stale_session ''ise-ppan-cx/admin#'' 30))) [])) = []"
proof -
  let ?w1 = "snd (wait_for_prompt stale_session ''ise-ppan-cx/admin#'' 30)"
  have first: "wait_for_prompt stale_session ''ise-ppan-cx/admin#'' 30 =
     (Inr True, \<lparr>clock = 0, incoming = [],
       log = [(INFO, ''Received: Selection configuration option ise-ppan-cx/admin#'')],
       trace = []\<rparr>)"
    by (simp add: wait_for_prompt_def stale_first_call)
  then have "incoming ?w1 = []" by simp
  then obtain w2 where second:
    "wait_loop ?w1 ''Selection configuration option'' 30 (time_time ?w1) [] = (Inr False, [], w2)"
    using drained_times_out [of ?w1 "''Selection configuration option''" 30] by auto
  then have "fst (wait_for_prompt ?w1 ''Selection configuration option'' 30) = Inr False"
    by (simp add: wait_for_prompt_def)
  then show ?thesis
    using first second by (simp add: stale_first_call)
qed

text \<open>
  C5, amended: the buffer is local to each call and starts empty, so a call returns
  \<^verbatim>\<open>True\<close> only if the prompt occurs in the concatenation of the chunks read during that
  very call (the events still pending when it began); text read by an earlier call
  cannot satisfy a later one.
\<close>

theorem wait_for_prompt_match_is_local:
  assumes "wait_for_prompt w prompt t = (Inr True, w')"
  shows "\<exists>k c. k < length (incoming w) \<and> incoming w ! k = Ready c \<and>
           str_in prompt (chunks (take (Suc k) (incoming w)))"
proof -
  obtain buf where "wait_loop w prompt t (clock w) [] = (Inr True, buf, w')"
    using assms by (auto simp: wait_for_prompt_def time_time_def split: prod.splits)
  then obtain m where "run_facts w prompt t (clock w) [] (Inr True) buf w' m"
    using wait_loop_run [OF refl] by blast
  then obtain k c where "m = Suc k" and "incoming w ! k = Ready c"
    and "m \<le> length (incoming w)" and "str_in prompt (chunks (take m (incoming w)))"
    unfolding run_facts_def by auto
  then have "k < length (incoming w) \<and> incoming w ! k = Ready c \<and>
      str_in prompt (chunks (take (Suc k) (incoming w)))"
    by simp
  then show ?thesis by blast
qed

theorem wait_for_prompt_match_is_local_witness:
  "wait_for_prompt stale_session ''ise-ppan-cx/admin#'' 30 =
     (Inr True, \<lparr>clock = 0, incoming = [],
       log = [(INFO, ''Received: Selection configuration option ise-ppan-cx/admin#'')],
       trace = []\<rparr>) \<and>
   (\<exists>k c. k < length (incoming stale_session) \<and> incoming stale_session ! k = Ready c \<and>
      str_in ''ise-ppan-cx/admin#'' (chunks (take (Suc k) (incoming stale_session))))"
proof -
  have first: "wait_for_prompt stale_session ''ise-ppan-cx/admin#'' 30 =
     (Inr True, \<lparr>clock = 0, incoming = [],
       log = [(INFO, ''Received: Selection configuration option ise-ppan-cx/admin#'')],
       trace = []\<rparr>)"
    by (simp add: wait_for_prompt_def stale_first_call)
  show ?thesis
    using wait_for_prompt_match_is_local [OF first] first by blast
qed

lemma early_run:
  "wait_loop early_channel ''#'' 30 (time_time early_channel) [] =
     (Inr True, ''x#'', \<lparr>clock = 0, incoming = [], log = [(INFO, ''Received: x#'')], trace = []\<rparr>)"
  by (simp add: wait_loop_match early_channel_def time_time_def logging_info_def strip_def
      isspace_def)

lemma late_run:
  "wait_loop late_channel ''#'' 30 (time_time late_channel) [] =
     (Inr True, ''yy#'',
      \<lparr>clock = 1/10, incoming = [], log = [(INFO, ''Received: yy#'')], trace = []\<rparr>)"
  by (simp add: wait_loop_match wait_loop_idle late_channel_def time_time_def time_sleep_def
      logging_info_def strip_def isspace_def)

text \<open>
  C6 says that the matcher hands back a record with the elapsed time and the captured
  output. It returns a bare \<^verbatim>\<open>bool\<close>: the calls on \<open>early_channel\<close> and \<open>late_channel\<close>
  return the same value although they captured different text and took different times.
\<close>

theorem result_is_a_flag_counterexample:
  "fst (wait_for_prompt early_channel ''#'' 30) = fst (wait_for_prompt late_channel ''#'' 30) \<and>
   fst (snd (wait_loop early_channel ''#'' 30 (time_time early_channel) [])) \<noteq>
     fst (snd (wait_loop late_channel ''#'' 30 (time_time late_channel) [])) \<and>
   clock (snd (wait_for_prompt early_channel ''#'' 30)) - clock early_channel \<noteq>
     clock (snd (wait_for_prompt late_channel ''#'' 30)) - clock late_channel"
  by (simp add: wait_for_prompt_def early_run late_run) (simp add: early_channel_def late_channel_def)

text \<open>
  C6, amended: a call that returns gives back the matched flag alone. \<^verbatim>\<open>True\<close> means the
  buffer read so far holds the prompt; \<^verbatim>\<open>False\<close> means the timeout has elapsed. The buffer
  (the text of the chunks consumed) is dropped on return; what was collected survives
  only as the \<^verbatim>\<open>Received: ...\<close> lines of the log, one per chunk.
\<close>

theorem wait_for_prompt_returns_flag:
  assumes "wait_loop w prompt t (time_time w) [] = (r, buf, w')"
  shows "wait_for_prompt w prompt t = (r, w') \<and>
         (r = Inr True \<longrightarrow> str_in prompt buf) \<and>
         (r = Inr False \<longrightarrow> t \<le> clock w' - clock w) \<and>
         (\<exists>m. buf = chunks (take m (incoming w)) \<and>
              log w' = log w @ received (take m (incoming w)))"
proof -
  have "wait_for_prompt w prompt t = (r, w')"
    using assms by (simp add: wait_for_prompt_def)
  moreover obtain m where "run_facts w prompt t (clock w) [] r buf w' m"
    using wait_loop_run [OF refl] assms unfolding time_time_def by blast
  ultimately show ?thesis
    unfolding run_facts_def by auto
qed

theorem wait_for_prompt_returns_flag_witness:
  "wait_for_prompt late_channel ''#'' 30 =
     (Inr True, \<lparr>clock = 1/10, incoming = [], log = [(INFO, ''Received: yy#'')], trace = []\<rparr>) \<and>
   str_in ''#'' ''yy#''"
  using wait_for_prompt_returns_flag [OF late_run] by simp

section \<open>Runs of the scripts: lemmas\<close>

lemma wait_for_prompt_effect:
  assumes "wait_for_prompt w p t = (r, w')"
  shows "trace w' = trace w \<and> (\<forall>e. r = Inl e \<longrightarrow> (\<exists>f. e = raised f))"
proof -
  obtain buf where "wait_loop w p t (clock w) [] = (r, buf, w')"
    using assms by (auto simp: wait_for_prompt_def time_time_def split: prod.splits)
  then obtain m where "run_facts w p t (clock w) [] r buf w' m"
    using wait_loop_run [OF refl] by blast
  then show ?thesis
    unfolding run_facts_def by auto
qed

lemma wait_or_exit_cases:
  obtains (fault) f w1 where "wait_or_exit p m w = (Inl (raised f), w1)" and "trace w1 = trace w"
  | (timeout) w1 where "wait_or_exit p m w = (Inl (SystemExit 1), w1)"
      and "trace w1 = trace w @ [Wait p False]" and "log w1 \<noteq> []" and "last (log w1) = (ERROR, m)"
  | (matched) w1 where "wait_or_exit p m w = (Inr (), w1)"
      and "trace w1 = trace w @ [Wait p True]"
proof -
  obtain r w0 where run: "wait_for_prompt w p 30 = (r, w0)"
    by (cases "wait_for_prompt w p 30")
  note eff = wait_for_prompt_effect [OF run]
  show thesis
  proof (cases r)
    case (Inl e)
    then obtain f where "e = raised f" using eff by blast
    then show ?thesis
      using run Inl eff fault [of f w0] by (simp add: wait_or_exit_def)
  next
    case (Inr b)
    show ?thesis
    proof (cases b)
      case True
      then show ?thesis
        using run Inr eff matched [of "record_call (Wait p True) w0"]
        by (simp add: wait_or_exit_def record_call_def)
    next
      case False
      then show ?thesis
        using run Inr eff timeout [of "logging_error m (record_call (Wait p False) w0)"]
        by (simp add: wait_or_exit_def record_call_def log_error_def sys_exit_def
            logging_error_def)
    qed
  qed
qed

lemma sat_weaken: "sat s Q \<Longrightarrow> (\<And>r cs w'. Q r cs w' \<Longrightarrow> R r cs w') \<Longrightarrow> sat s R"
  unfolding sat_def by blast

lemma sat_block_Nil: "sat (block []) (\<lambda>r cs w'. r = Inr () \<and> cs = [])"
  unfolding sat_def by simp

lemma sat_block_Cons:
  assumes "sat s Q" and "sat (block ss) R"
  shows "sat (block (s # ss)) (seq_post Q R)"
  unfolding sat_def
proof (intro allI impI)
  fix w r w'
  assume run: "block (s # ss) w = (r, w')"
  obtain r1 w1 where s: "s w = (r1, w1)" by (cases "s w")
  then obtain cs1 where t1: "trace w1 = trace w @ cs1" and q: "Q r1 cs1 w1"
    using assms(1) unfolding sat_def by blast
  show "\<exists>cs. trace w' = trace w @ cs \<and> seq_post Q R r cs w'"
  proof (cases r1)
    case (Inl e)
    then have "r = Inl e" and "w' = w1" using run s by simp_all
    then show ?thesis using t1 q Inl unfolding seq_post_def by blast
  next
    case (Inr u)
    then have "block ss w1 = (r, w')" using run s by simp
    then obtain cs2 where t2: "trace w' = trace w1 @ cs2" and r: "R r cs2 w'"
      using assms(2) unfolding sat_def by blast
    have "trace w' = trace w @ (cs1 @ cs2)" using t1 t2 by simp
    moreover have "seq_post Q R r (cs1 @ cs2) w'"
      using q r Inr unfolding seq_post_def by auto
    ultimately show ?thesis by blast
  qed
qed

lemma sat_log_info: "sat (log_info m) (\<lambda>r cs w'. r = Inr () \<and> cs = [])"
  unfolding sat_def by (auto simp: log_info_def logging_info_def)

lemma sat_channel_send: "sat (channel_send s) (\<lambda>r cs w'. r = Inr () \<and> cs = [Send s])"
  unfolding sat_def by (auto simp: channel_send_def record_call_def)

lemma sat_channel_close: "sat channel_close (\<lambda>r cs w'. r = Inr () \<and> cs = [CloseChannel])"
  unfolding sat_def by (auto simp: channel_close_def record_call_def)

lemma sat_ssh_close: "sat ssh_close (\<lambda>r cs w'. r = Inr () \<and> cs = [CloseSSH])"
  unfolding sat_def by (auto simp: ssh_close_def record_call_def)

lemma sat_ssh_connect:
  "sat (ssh_connect h) (\<lambda>r cs w'. cs = [Connect] \<and> (r = Inr () \<or> (\<exists>f. r = Inl (raised f))))"
  unfolding sat_def by (auto simp: ssh_connect_def record_call_def split: option.splits)

lemma sat_invoke_shell:
  "sat (invoke_shell h) (\<lambda>r cs w'. cs = [InvokeShell] \<and> (r = Inr () \<or> (\<exists>f. r = Inl (raised f))))"
  unfolding sat_def by (auto simp: invoke_shell_def record_call_def split: option.splits)

lemma sat_wait_or_exit:
  "sat (wait_or_exit p m) (\<lambda>r cs w'.
      (r = Inr () \<and> cs = [Wait p True]) \<or>
      (r = Inl (SystemExit 1) \<and> cs = [Wait p False] \<and> last (log w') = (ERROR, m)) \<or>
      ((\<exists>f. r = Inl (raised f)) \<and> cs = []))"
  unfolding sat_def
proof (intro allI impI)
  fix w r w'
  assume "wait_or_exit p m w = (r, w')"
  then show "\<exists>cs. trace w' = trace w @ cs \<and>
     ((r = Inr () \<and> cs = [Wait p True]) \<or>
      (r = Inl (SystemExit 1) \<and> cs = [Wait p False] \<and> last (log w') = (ERROR, m)) \<or>
      ((\<exists>f. r = Inl (raised f)) \<and> cs = []))"
    by (cases p m w rule: wait_or_exit_cases) auto
qed

lemma sat_send_name:
  "sat (and_then (name_value g n) (\<lambda>v. channel_send (f v))) (\<lambda>r cs w'.
      (case map_of g n of
         None \<Rightarrow> r = Inl (unbound n) \<and> cs = []
       | Some v \<Rightarrow> r = Inr () \<and> cs = [Send (f v)]))"
  unfolding sat_def
  by (auto simp: and_then_def name_value_def channel_send_def record_call_def unbound_def
      split: option.splits)

lemmas sat_session_rules =
  sat_block_Cons sat_block_Nil sat_log_info sat_channel_send sat_channel_close sat_ssh_close
  sat_ssh_connect sat_invoke_shell sat_wait_or_exit sat_send_name

lemma sat_session_generic:
  "sat (block
     [log_info a0, ssh_connect h, log_info a1, invoke_shell h, log_info a2,
      wait_or_exit p0 m0, log_info a3, channel_send c1, wait_or_exit p1 m1,
      channel_send c2, wait_or_exit p2 m2, wait_or_exit p3 m3, channel_send c4,
      wait_or_exit p4 m4, log_info a4,
      and_then (name_value g n) (\<lambda>v. channel_send (f v)),
      wait_or_exit p5 m5, channel_close, ssh_close, log_info a5])
    (\<lambda>r cs w'.
      (case map_of g n of
        None \<Rightarrow>
          ((\<exists>f. r = Inl (raised f)) \<and>
             (\<exists>k \<in> set (take 6 [1, 2, 4, 6, 7, 9, 11]).
                cs = take k [Connect, InvokeShell, Wait p0 True, Send c1, Wait p1 True, Send c2,
                  Wait p2 True, Wait p3 True, Send c4, Wait p4 True, Send (f []), Wait p5 True,
                  CloseChannel, CloseSSH])) \<or>
          (r = Inl (SystemExit 1) \<and>
             (\<exists>(k, p, m) \<in> set (take 5 [(2, p0, m0), (4, p1, m1), (6, p2, m2), (7, p3, m3),
                  (9, p4, m4), (11, p5, m5)]).
                cs = take k [Connect, InvokeShell, Wait p0 True, Send c1, Wait p1 True, Send c2,
                  Wait p2 True, Wait p3 True, Send c4, Wait p4 True, Send (f []), Wait p5 True,
                  CloseChannel, CloseSSH] @ [Wait p False] \<and>
                last (log w') = (ERROR, m))) \<or>
          (r = Inl (unbound n) \<and>
             cs = take 10 [Connect, InvokeShell, Wait p0 True, Send c1, Wait p1 True, Send c2,
                  Wait p2 True, Wait p3 True, Send c4, Wait p4 True, Send (f []), Wait p5 True,
                  CloseChannel, CloseSSH])
      | Some v \<Rightarrow>
          ((\<exists>f. r = Inl (raised f)) \<and>
             (\<exists>k \<in> set [1, 2, 4, 6, 7, 9, 11].
                cs = take k [Connect, InvokeShell, Wait p0 True, Send c1, Wait p1 True, Send c2,
                  Wait p2 True, Wait p3 True, Send c4, Wait p4 True, Send (f v), Wait p5 True,
                  CloseChannel, CloseSSH])) \<or>
          (r = Inl (SystemExit 1) \<and>
             (\<exists>(k, p, m) \<in> set [(2, p0, m0), (4, p1, m1), (6, p2, m2), (7, p3, m3),
                  (9, p4, m4), (11, p5, m5)].
                cs = take k [Connect, InvokeShell, Wait p0 True, Send c1, Wait p1 True, Send c2,
                  Wait p2 True, Wait p3 True, Send c4, Wait p4 True, Send (f v), Wait p5 True,
                  CloseChannel, CloseSSH] @ [Wait p False] \<and>
                last (log w') = (ERROR, m))) \<or>
          (r = Inr () \<and>
             cs = [Connect, InvokeShell, Wait p0 True, Send c1, Wait p1 True, Send c2,
                  Wait p2 True, Wait p3 True, Send c4, Wait p4 True, Send (f v), Wait p5 True,
                  CloseChannel, CloseSSH])))"
  apply (rule sat_weaken)
   apply (rule sat_session_rules)+
  apply (cases "map_of g n")
   apply (simp_all add: seq_post_def)
   apply (elim disjE conjE exE; simp; blast)
  apply (elim disjE conjE exE; simp; blast)
  done

lemma sat_shell_session:
  "sat (shell_session h ise_host g) (session_post (map_of g ''CSV_FILE''))"
  unfolding shell_session_def session_post_def [abs_def] is_fault_def faulted_def timed_out_def
    full_trace_def wait_points_def fault_points_def
  by (rule sat_session_generic
      [where f = "\<lambda>v. ''copy disk:/'' @ v @ '' repository NFS'' @ [NL]"])

lemma sat_try_except:
  assumes "sat body Q"
  shows "sat (try_except body) (caught Q)"
  unfolding sat_def
proof (intro allI impI)
  fix w r w'
  assume run: "try_except body w = (r, w')"
  obtain r1 w1 where b: "body w = (r1, w1)" by (cases "body w")
  then obtain cs where t: "trace w1 = trace w @ cs" and q: "Q r1 cs w1"
    using assms unfolding sat_def by blast
  have "trace w' = trace w @ cs \<and> caught Q r cs w'"
  proof (cases r1)
    case (Inr u)
    then show ?thesis
      using run b t q by (simp add: try_except_def caught_def)
  next
    case (Inl e)
    show ?thesis
    proof (cases e)
      case (SystemExit code)
      then show ?thesis
        using run b t q Inl by (auto simp: try_except_def caught_def)
    qed (use run b t q Inl in \<open>auto simp: try_except_def caught_def log_error_def sys_exit_def
          logging_error_def\<close>)
  qed
  then show "\<exists>cs. trace w' = trace w @ cs \<and> caught Q r cs w'" by blast
qed

lemma and_then_bound:
  "map_of g n = Some v \<Longrightarrow> and_then (name_value g n) f = f v"
  by (rule ext) (simp add: and_then_def name_value_def)

lemma test_globals_lookup:
  "map_of (test_globals h) ''ISE_HOST'' = Some ''1.2.3.4''"
  "map_of (test_globals h) ''NFS_PATH'' = Some ''/home/nfsshare''"
  "map_of (test_globals h) ''CSV_FILE'' = Some (test_csv h)"
  "map_of (test_globals h) ''PRESIGNED_URL'' =
     Some (''https://your-s3-bucket.s3.amazonaws.com/FullReport_'' @ today h
             @ ''.csv?AWSAccessKeyId=...'')"
  by (simp_all add: test_globals_def script_names_def test_csv_def)

lemma export_globals_lookup: "map_of (export_globals h) ''CSV_FILE'' = None"
  by (simp add: export_globals_def script_names_def)

lemma handler_text_raised [simp]: "handler_text (raised f) = Some (fault_line f)"
  by (cases f) simp_all

lemma is_fault_simps [simp]:
  "\<not> is_fault (Inr u)" "\<not> is_fault (Inl (SystemExit code))" "\<not> is_fault (Inl (unbound n))"
  "is_fault (Inl (raised f))"
  by (auto simp: is_fault_def unbound_def; case_tac f; simp)+

lemma raised_not_exit [simp]: "raised f \<noteq> SystemExit code" "SystemExit code \<noteq> raised f"
  by (cases f; simp)+

lemma raised_not_unbound [simp]: "raised f \<noteq> unbound n" "unbound n \<noteq> raised f"
  by (cases f; simp add: unbound_def)+

lemma unbound_not_exit [simp]: "unbound n \<noteq> SystemExit code" "SystemExit code \<noteq> unbound n"
  by (simp_all add: unbound_def)

lemma handler_text_unbound [simp]:
  "handler_text (unbound n) =
     Some (''An error occurred: '' @ ''name '' @ [QUOTE] @ n @ [QUOTE] @ '' is not defined'')"
  by (simp add: unbound_def)

lemma sat_test_publish:
  "sat (test_publish h) (\<lambda>r cs w'.
     (\<not> path_exists h (test_path h) \<and> r = Inl (SystemExit 1) \<and>
        cs = [PathExists (test_path h)] \<and>
        last (log w') = (ERROR, ''File not found: '' @ test_path h)) \<or>
     (path_exists h (test_path h) \<and> os_system h (test_upload_cmd h) \<noteq> 0 \<and>
        r = Inl (SystemExit 1) \<and>
        cs = [PathExists (test_path h), OsSystem (test_upload_cmd h)] \<and>
        last (log w') = (ERROR, ''Failed to upload file to S3'')) \<or>
     (path_exists h (test_path h) \<and> os_system h (test_upload_cmd h) = 0 \<and> r = Inr () \<and>
        cs = [PathExists (test_path h), OsSystem (test_upload_cmd h)]))"
  unfolding sat_def test_publish_def
    and_then_bound [OF test_globals_lookup(2)] and_then_bound [OF test_globals_lookup(3)]
    and_then_bound [OF test_globals_lookup(4)]
  by (auto simp: Let_def record_call_def log_error_def sys_exit_def logging_error_def
      test_path_def test_csv_def test_upload_cmd_def)

lemma sat_test_body:
  "sat (block
      [shell_session h ''1.2.3.4'' (test_globals h),
       log_info ''Uploading file to S3 bucket'',
       test_publish h,
       log_info ''ISE export process completed successfully''])
     (body_post h)"
  apply (rule sat_weaken)
   apply (rule sat_block_Cons sat_block_Nil sat_log_info sat_shell_session sat_test_publish)+
  apply (simp add: seq_post_def session_post_def body_post_def test_globals_lookup)
  apply (elim disjE conjE exE; simp)
  done

lemma caught_body_post:
  "caught (body_post h) r cs w' \<Longrightarrow> test_post h (exit_status r) cs w'"
  unfolding caught_def body_post_def test_post_def is_fault_def
  by (elim disjE conjE exE; simp; blast)

lemma caught_body_post_done:
  "caught (body_post h) (Inr u) cs x \<Longrightarrow> test_post h 0 cs w'"
  unfolding caught_def body_post_def test_post_def is_fault_def
  by (elim disjE conjE exE; simp)

lemma sat_test_main:
  "sat (test_main h) (\<lambda>r cs w'. test_post h (exit_status r) cs w')"
  unfolding test_main_def and_then_bound [OF test_globals_lookup(1)]
  apply (rule sat_weaken)
   apply (rule sat_test_body sat_block_Cons sat_block_Nil sat_log_info sat_try_except)+
  apply (simp add: seq_post_def)
  apply (elim disjE conjE exE; simp add: caught_body_post caught_body_post_done)
  done

lemma run_test_outcome:
  assumes "run_test h w = (status, w')"
  shows "\<exists>cs. trace w' = trace w @ cs \<and> test_post h status cs w'"
proof -
  obtain r where "test_main h w = (r, w')" and "status = exit_status r"
    using assms by (auto simp: run_test_def split: prod.splits)
  then show ?thesis
    using sat_test_main [of h] unfolding sat_def by blast
qed

lemma quiet_load_environment: "quiet (load_environment h env_name)"
  unfolding quiet_def load_environment_def
  by (auto simp: Let_def log_error_def log_info_def sys_exit_def logging_error_def
      logging_info_def)

lemma quiet_get_config: "quiet (get_config h)"
  unfolding quiet_def get_config_def
  by (auto simp: Let_def and_then_def log_error_def sys_exit_def logging_error_def
      return_io_def split: if_splits)

lemma sat_and_then_quiet:
  assumes "quiet m" and "\<And>a. sat (f a) Q"
  shows "sat (and_then m f) (\<lambda>r cs w'. (r = Inl (SystemExit 1) \<and> cs = []) \<or> Q r cs w')"
  unfolding sat_def
proof (intro allI impI)
  fix w r w'
  assume run: "and_then m f w = (r, w')"
  obtain r1 w1 where m: "m w = (r1, w1)" by (cases "m w")
  then have t: "trace w1 = trace w" and e: "\<forall>e. r1 = Inl e \<longrightarrow> e = SystemExit 1"
    using assms(1) unfolding quiet_def by blast+
  show "\<exists>cs. trace w' = trace w @ cs \<and> ((r = Inl (SystemExit 1) \<and> cs = []) \<or> Q r cs w')"
  proof (cases r1)
    case (Inl x)
    then show ?thesis using run m t e by (simp add: and_then_def)
  next
    case (Inr a)
    then have "f a w1 = (r, w')" using run m by (simp add: and_then_def)
    then show ?thesis using assms(2) [of a] t unfolding sat_def by fastforce
  qed
qed

lemma sat_credentials_check:
  "sat (and_then (check_aws_credentials h)
          (\<lambda>found. if \<not> found then sys_exit 1 else return_io ()))
     (\<lambda>r cs w'. cs = [] \<and> (r = Inr () \<or> r = Inl (SystemExit 1)))"
  unfolding sat_def
  by (auto simp: and_then_def check_aws_credentials_def sys_exit_def return_io_def
      logging_error_def split: sum.splits if_splits)

lemma sat_block_Cons_raises:
  assumes "sat s Q" and "\<And>cs w. \<not> Q (Inr ()) cs w"
  shows "sat (block (s # ss)) Q"
  unfolding sat_def
proof (intro allI impI)
  fix w r w'
  assume run: "block (s # ss) w = (r, w')"
  obtain r1 w1 where s: "s w = (r1, w1)" by (cases "s w")
  then obtain cs where t: "trace w1 = trace w @ cs" and q: "Q r1 cs w1"
    using assms(1) unfolding sat_def by blast
  then obtain e where "r1 = Inl e"
    using assms(2) by (cases r1) auto
  then have "r = r1" and "w' = w1" using run s by simp_all
  then show "\<exists>cs. trace w' = trace w @ cs \<and> Q r cs w'" using t q by blast
qed

lemma session_post_None_raises: "\<not> session_post None (Inr ()) cs w"
  by (simp add: session_post_def)

lemma sat_export_body:
  "sat (block
      [shell_session h ise_host (export_globals h),
       log_info ''Uploading file to S3 bucket'',
       export_publish h config,
       log_info ''ISE export process completed successfully''])
     (session_post None)"
  by (rule sat_block_Cons_raises)
    (use sat_shell_session [of h ise_host "export_globals h"] in
      \<open>simp_all add: export_globals_lookup session_post_None_raises\<close>)

lemma caught_export_post:
  "caught (session_post None) r cs w' \<Longrightarrow> export_post (exit_status r) cs w'"
  by (auto simp: caught_def session_post_def export_post_def unbound_line_def is_fault_def)

lemma caught_export_never_returns: "\<not> caught (session_post None) (Inr u) cs w"
  by (simp add: caught_def session_post_def)

lemma sat_export_main:
  "sat (export_main h) (\<lambda>r cs w'. export_post (exit_status r) cs w')"
  unfolding export_main_def Let_def
  apply (rule sat_weaken)
   apply (rule sat_credentials_check sat_export_body sat_and_then_quiet quiet_load_environment
      quiet_get_config sat_block_Cons sat_block_Nil sat_log_info sat_try_except)+
  apply (simp add: seq_post_def)
  apply (elim disjE conjE exE; simp add: caught_export_post caught_export_never_returns)
    apply (simp_all add: export_post_def)
  done

lemma run_export_outcome:
  assumes "run_export h w = (status, w')"
  shows "\<exists>cs. trace w' = trace w @ cs \<and> export_post status cs w'"
proof -
  obtain r where "export_main h w = (r, w')" and "status = exit_status r"
    using assms by (auto simp: run_export_def split: prod.splits)
  then show ?thesis
    using sat_export_main [of h] unfolding sat_def by blast
qed

lemma full_trace_gen:
  "full_trace csv_file = gen_trace ''ise-ppan-cx/admin#'' (''application configure ise'' @ [NL])
     ''Selection configuration option'' (''16'' @ [NL])
     ''Starting to generate All Endpoints report'' ''Completed generating All Endpoints report''
     (''0'' @ [NL]) ''ise-ppan-cx/admin#''
     (''copy disk:/'' @ csv_file @ '' repository NFS'' @ [NL]) ''ise-ppan-cx/admin#''"
  unfolding full_trace_def gen_trace_def ..

lemma gen_length: "length (gen_trace p0 c1 p1 c2 p2 p3 c4 p4 c5 p5) = 14"
  by (simp add: gen_trace_def)

lemma gen_no_failed_wait: "Wait p False \<notin> set (gen_trace p0 c1 p1 c2 p2 p3 c4 p4 c5 p5)"
  by (simp add: gen_trace_def)

lemma full_length [simp]: "length (full_trace csv_file) = 14"
  unfolding full_trace_gen by (rule gen_length)

lemma full_no_failed_wait: "Wait p False \<notin> set (full_trace csv_file)"
  unfolding full_trace_gen by (rule gen_no_failed_wait)

lemma take_no_failed_wait: "Wait p False \<notin> set (take k (full_trace csv_file))"
  using full_no_failed_wait in_set_takeD by fastforce

lemma wait_points_bound: "(k, p, m) \<in> set wait_points \<Longrightarrow> k < 14"
  by (auto simp: wait_points_def)

lemma faulted_no_failed_wait: "faulted points csv_file cs \<Longrightarrow> Wait p False \<notin> set cs"
  unfolding faulted_def using take_no_failed_wait by auto

lemma timed_out_index:
  assumes "timed_out points csv_file cs w'" and "set points \<subseteq> set wait_points"
    and "i < length cs" and "cs ! i = Wait p False"
  shows "Suc i = length cs \<and>
         (\<exists>m. (i, p, m) \<in> set wait_points \<and>
            cs = take i (full_trace csv_file) @ [Wait p False] \<and> last (log w') = (ERROR, m))"
proof -
  obtain k q m where mem: "(k, q, m) \<in> set points"
    and cs: "cs = take k (full_trace csv_file) @ [Wait q False]"
    and lg: "last (log w') = (ERROR, m)"
    using assms(1) unfolding timed_out_def by auto
  have k: "k < 14" using mem assms(2) wait_points_bound by blast
  then have len: "length (take k (full_trace csv_file)) = k" by simp
  have "\<not> i < k"
  proof
    assume "i < k"
    then have "cs ! i = take k (full_trace csv_file) ! i"
      using cs len by (simp add: nth_append del: nth_take)
    moreover have "take k (full_trace csv_file) ! i \<in> set (take k (full_trace csv_file))"
      using \<open>i < k\<close> len by (intro nth_mem) simp
    ultimately have "cs ! i \<in> set (take k (full_trace csv_file))"
      by simp
    then show False using assms(4) take_no_failed_wait by metis
  qed
  moreover have "i < Suc k" using assms(3) cs len by simp
  ultimately have ik: "i = k" by simp
  then have "p = q" using assms(4) cs len by (simp add: nth_append)
  then show ?thesis using ik cs lg len mem assms(2) by auto
qed

lemma run_outcome:
  assumes "run_export h w = (status, w') \<or> run_test h w = (status, w')" and "trace w = []"
  shows "export_post status (trace w') w' \<or> test_post h status (trace w') w'"
  using assms run_export_outcome [of h w status w'] run_test_outcome [of h w status w']
  by auto

lemma export_post_cases:
  assumes "export_post status cs w'"
  obtains (plumbing) "status = 1" "cs = []"
  | (fault) "status = 1" "faulted (take 6 fault_points) [] cs"
  | (timeout) "status = 1" "timed_out (take 5 wait_points) [] cs w'"
  | (unbound) "status = 1" "cs = take 10 (full_trace [])" "last (log w') = (ERROR, unbound_line)"
  using assms unfolding export_post_def by blast

lemma test_post_cases:
  assumes "test_post h status cs w'"
  obtains (fault) "status = 1" "faulted fault_points (test_csv h) cs"
  | (timeout) "status = 1" "timed_out wait_points (test_csv h) cs w'"
  | (missing) "status = 1" "\<not> path_exists h (test_path h)"
      "cs = full_trace (test_csv h) @ [PathExists (test_path h)]"
      "last (log w') = (ERROR, ''File not found: '' @ test_path h)"
  | (failed) "status = 1" "path_exists h (test_path h)" "os_system h (test_upload_cmd h) \<noteq> 0"
      "cs = full_trace (test_csv h) @ [PathExists (test_path h), OsSystem (test_upload_cmd h)]"
      "last (log w') = (ERROR, ''Failed to upload file to S3'')"
  | (success) "status = 0" "path_exists h (test_path h)" "os_system h (test_upload_cmd h) = 0"
      "cs = full_trace (test_csv h) @ [PathExists (test_path h), OsSystem (test_upload_cmd h)]"
  using assms unfolding test_post_def by blast

lemma wait_points_gen:
  "wait_points = gen_waits ''ise-ppan-cx/admin#'' ''Timeout waiting for initial prompt''
     ''Selection configuration option'' ''Timeout waiting for menu''
     ''Starting to generate All Endpoints report'' ''Timeout waiting for report start''
     ''Completed generating All Endpoints report'' ''Timeout waiting for report completion''
     ''ise-ppan-cx/admin#'' ''Timeout waiting for admin prompt''
     ''ise-ppan-cx/admin#'' ''Timeout waiting for copy completion''"
  unfolding wait_points_def gen_waits_def ..

lemma gen_wait_at:
  "(k, q, m) \<in> set (gen_waits p0 m0 p1 m1 p2 m2 p3 m3 p4 m4 p5 m5) \<Longrightarrow>
   k \<le> 11 \<and> gen_trace p0 c1 p1 c2 p2 p3 c4 p4 c5 p5 ! k = Wait q True"
  by (auto simp: gen_waits_def gen_trace_def)

lemma wait_at:
  "(k, q, m) \<in> set wait_points \<Longrightarrow> k \<le> 11 \<and> full_trace csv_file ! k = Wait q True"
  unfolding wait_points_gen full_trace_gen by (rule gen_wait_at)




lemma faulted_shape:
  assumes "faulted points csv_file cs" and "set points \<subseteq> set fault_points"
  shows "shape csv_file cs"
proof -
  obtain k where "k \<in> set points" and cs: "cs = take k (full_trace csv_file)"
    using assms(1) unfolding faulted_def by blast
  then have "k \<le> 11" using assms(2) by (auto simp: fault_points_def)
  then have "cs = take k (full_trace csv_file) @ [] \<and> k \<le> 11 \<and> ([]::call list) = []"
    using cs by simp
  then show ?thesis unfolding shape_def by blast
qed

lemma timed_out_shape:
  assumes "timed_out points csv_file cs w'" and "set points \<subseteq> set wait_points"
  shows "shape csv_file cs"
proof -
  obtain k q m where "(k, q, m) \<in> set points"
    and "cs = take k (full_trace csv_file) @ [Wait q False]"
    using assms(1) unfolding timed_out_def by auto
  then show ?thesis using assms(2) unfolding shape_def by blast
qed

lemma take_shape: "k \<le> 11 \<Longrightarrow> shape csv_file (take k (full_trace csv_file))"
  unfolding shape_def by (metis append_Nil2)

lemma export_post_shape:
  assumes "export_post status cs w'"
  shows "shape [] cs"
  using assms
proof (cases rule: export_post_cases)
  case plumbing
  then show ?thesis using take_shape [of 0 "[]"] by simp
next
  case fault
  then show ?thesis using faulted_shape [OF _ set_take_subset] by blast
next
  case timeout
  then show ?thesis using timed_out_shape [OF _ set_take_subset] by blast
next
  case unbound
  then show ?thesis using take_shape [of 10 "[]"] by simp
qed

lemma test_post_shape:
  assumes "test_post h status cs w'"
  shows "shape (test_csv h) cs"
  using assms
proof (cases rule: test_post_cases)
  case fault
  then show ?thesis using faulted_shape [OF _ subset_refl] by blast
next
  case timeout
  then show ?thesis using timed_out_shape [OF _ subset_refl] by blast
next
  case missing
  then have "cs = take 14 (full_trace (test_csv h)) @ [PathExists (test_path h)]" by simp
  then show ?thesis unfolding shape_def by blast
next
  case failed
  then have "cs = take 14 (full_trace (test_csv h))
      @ [PathExists (test_path h), OsSystem (test_upload_cmd h)]" by simp
  then show ?thesis unfolding shape_def by blast
next
  case success
  then have "cs = take 14 (full_trace (test_csv h))
      @ [PathExists (test_path h), OsSystem (test_upload_cmd h)]" by simp
  then show ?thesis unfolding shape_def by blast
qed

lemma run_shape:
  assumes "run_export h w = (status, w') \<or> run_test h w = (status, w')" and "trace w = []"
  shows "\<exists>csv_file. shape csv_file (trace w')"
  using run_outcome [OF assms] export_post_shape test_post_shape by blast



lemma gen_no_close_early:
  assumes "k \<le> 11"
  shows "CloseChannel \<notin> set (take k (gen_trace p0 c1 p1 c2 p2 p3 c4 p4 c5 p5)) \<and>
         CloseSSH \<notin> set (take k (gen_trace p0 c1 p1 c2 p2 p3 c4 p4 c5 p5))"
proof -
  have "set (take k (gen_trace p0 c1 p1 c2 p2 p3 c4 p4 c5 p5))
      \<subseteq> set (take 11 (gen_trace p0 c1 p1 c2 p2 p3 c4 p4 c5 p5))"
    using assms by (rule set_take_subset_set_take)
  moreover have "CloseChannel \<notin> set (take 11 (gen_trace p0 c1 p1 c2 p2 p3 c4 p4 c5 p5)) \<and>
      CloseSSH \<notin> set (take 11 (gen_trace p0 c1 p1 c2 p2 p3 c4 p4 c5 p5))"
    by (simp add: gen_trace_def)
  ultimately show ?thesis by blast
qed

lemma no_close_early:
  "k \<le> 11 \<Longrightarrow> CloseChannel \<notin> set (take k (full_trace csv_file)) \<and>
     CloseSSH \<notin> set (take k (full_trace csv_file))"
  unfolding full_trace_gen by (rule gen_no_close_early)

lemma close_count:
  "count_list (full_trace csv_file) CloseChannel = 1"
  "count_list (full_trace csv_file) CloseSSH = 1"
  by (simp_all add: full_trace_gen gen_trace_def)

lemma shape_closes:
  assumes "shape csv_file cs"
  shows "count_list cs CloseChannel \<le> 1 \<and> count_list cs CloseSSH \<le> 1 \<and>
         (CloseChannel \<in> set cs \<or> CloseSSH \<in> set cs \<longrightarrow> prefix (full_trace csv_file) cs)"
proof -
  let ?F = "full_trace csv_file"
  obtain k extra where cs: "cs = take k ?F @ extra"
    and ex: "(k \<le> 11 \<and> extra = []) \<or>
         (\<exists>q m. (k, q, m) \<in> set wait_points \<and> extra = [Wait q False]) \<or>
         (k = 14 \<and> (\<exists>a b. extra = [] \<or> extra = [PathExists a] \<or>
                          extra = [PathExists a, OsSystem b]))"
    using assms unfolding shape_def by blast
  have quiet_extra: "count_list extra CloseChannel = 0 \<and> count_list extra CloseSSH = 0"
    using ex by auto
  show ?thesis
  proof (cases "k = 14")
    case True
    then have "cs = ?F @ extra" using cs by simp
    then show ?thesis using quiet_extra close_count by simp
  next
    case False
    then have "k \<le> 11" using ex wait_at by blast
    then have "CloseChannel \<notin> set (take k ?F) \<and> CloseSSH \<notin> set (take k ?F)"
      by (rule no_close_early)
    moreover have "CloseChannel \<notin> set extra \<and> CloseSSH \<notin> set extra"
      using ex by auto
    ultimately have "CloseChannel \<notin> set cs \<and> CloseSSH \<notin> set cs"
      using cs by simp
    then show ?thesis by simp
  qed
qed

lemma faulted_length:
  assumes "faulted points csv_file cs" and "\<forall>k \<in> set points. k \<le> n"
  shows "length cs \<le> n"
  using assms unfolding faulted_def by auto

lemma timed_out_length:
  assumes "timed_out points csv_file cs w'" and "\<forall>(k, p, m) \<in> set points. k \<le> n"
  shows "length cs \<le> Suc n \<and> (\<exists>q. Wait q False \<in> set cs)"
  using assms unfolding timed_out_def by fastforce


lemma early_fault_points_bound: "\<forall>k \<in> set (take 6 fault_points). k \<le> 9"
  by (simp add: fault_points_def)


lemma early_wait_points_bound: "\<forall>(k, p, m) \<in> set (take 5 wait_points). k \<le> 9"
  by (simp add: wait_points_def)

lemma export_post_length:
  assumes "export_post status cs w'"
  shows "status = 1 \<and> length cs \<le> 10"
  using assms
proof (cases rule: export_post_cases)
  case fault
  then show ?thesis using faulted_length [OF _ early_fault_points_bound] by fastforce
next
  case timeout
  then show ?thesis using timed_out_length [OF _ early_wait_points_bound] by fastforce
qed simp_all











section \<open>Sample runs\<close>

lemma wait_loop_drained:
  "incoming w = [] \<Longrightarrow> polls_left s t (clock w) = n \<Longrightarrow>
   wait_loop w p t s b = (Inr False, b, w\<lparr>clock := clock w + of_nat n / 10\<rparr>)"
proof (induction n arbitrary: w)
  case 0
  then have "\<not> clock w - s < t"
    using polls_left_step by fastforce
  then show ?case by (simp add: wait_loop_expired)
next
  case (Suc n)
  then have live: "clock w - s < t"
    by (simp add: polls_left_pos)
  then have left: "polls_left s t (clock w + 1/10) = n"
    using Suc.prems(2) polls_left_step by fastforce
  have "wait_loop (time_sleep (1/10) w) p t s b =
      (Inr False, b, (time_sleep (1/10) w)\<lparr>clock := clock (time_sleep (1/10) w) + of_nat n / 10\<rparr>)"
    using Suc.prems(1) left by (intro Suc.IH) (simp_all add: time_sleep_def)
  then show ?case
    using Suc.prems(1) live by (simp add: wait_loop_empty time_sleep_def field_simps)
qed

lemma wait_for_prompt_drained:
  "incoming w = [] \<Longrightarrow>
   wait_for_prompt w p 30 = (Inr False, w\<lparr>clock := clock w + 30\<rparr>)"
  using wait_loop_drained [of w "clock w" 30 "nat \<lceil>(30::rat) * 10\<rceil>" p "[]"]
  by (simp add: wait_for_prompt_def time_time_def polls_at_start)

lemma wait_for_prompt_first_chunk:
  "incoming w = Ready c # es \<Longrightarrow> str_in p c \<Longrightarrow>
   wait_for_prompt w p 30 = (Inr True, logging_info (''Received: '' @ strip c) (w\<lparr>incoming := es\<rparr>))"
  by (simp add: wait_for_prompt_def time_time_def wait_loop_match)

lemma through_logging_info [simp]:
  "trace (logging_info m w) = trace w" "incoming (logging_info m w) = incoming w"
  "clock (logging_info m w) = clock w" "log (logging_info m w) = log w @ [(INFO, m)]"
  by (simp_all add: logging_info_def)

lemma through_logging_error [simp]:
  "trace (logging_error m w) = trace w" "incoming (logging_error m w) = incoming w"
  "clock (logging_error m w) = clock w" "log (logging_error m w) = log w @ [(ERROR, m)]"
  by (simp_all add: logging_error_def)

lemma through_record_call [simp]:
  "trace (record_call c w) = trace w @ [c]" "incoming (record_call c w) = incoming w"
  "clock (record_call c w) = clock w" "log (record_call c w) = log w"
  by (simp_all add: record_call_def)

lemmas stmt_defs = block.simps try_except_def shell_session_def and_then_def name_value_def
  log_info_def log_error_def sys_exit_def return_io_def ssh_connect_def invoke_shell_def
  channel_send_def channel_close_def ssh_close_def wait_or_exit_def
  wait_for_prompt_drained wait_for_prompt_first_chunk

lemmas export_defs = run_export_def export_main_def load_environment_def get_config_def
  required_vars_def check_aws_credentials_def export_publish_def upload_to_s3_def
  export_globals_lookup

lemmas test_defs = run_test_def test_main_def test_publish_def test_globals_lookup Let_def

lemma export_stalled:
  "fst (run_export cron_host stalled_world) = 1 \<and>
   trace (snd (run_export cron_host stalled_world)) =
     take 7 (full_trace []) @ [Wait ''Completed generating All Endpoints report'' False] \<and>
   last (log (snd (run_export cron_host stalled_world))) =
     (ERROR, ''Timeout waiting for report completion'')"
  by (simp add: export_defs stmt_defs cron_host_def stalled_world_def full_trace_def)

lemma export_silent:
  "fst (run_export cron_host silent_world) = 1 \<and>
   trace (snd (run_export cron_host silent_world)) =
     [Connect, InvokeShell, Wait ''ise-ppan-cx/admin#'' False]"
  by (simp add: export_defs stmt_defs cron_host_def silent_world_def)

lemma export_happy:
  "fst (run_export cron_host happy_world) = 1 \<and>
   trace (snd (run_export cron_host happy_world)) = take 10 (full_trace []) \<and>
   last (log (snd (run_export cron_host happy_world))) = (ERROR, unbound_line)"
  by (simp add: export_defs stmt_defs cron_host_def happy_world_def full_trace_def
      unbound_line_def)


lemma test_happy_published:
  "fst (run_test nfs_host happy_world) = 0 \<and>
   trace (snd (run_test nfs_host happy_world)) =
     full_trace (test_csv nfs_host)
       @ [PathExists (test_path nfs_host), OsSystem (test_upload_cmd nfs_host)]"
  by (simp add: test_defs stmt_defs nfs_host_def lab_host_def happy_world_def full_trace_def
      test_path_def test_csv_def test_upload_cmd_def)

lemma fresh_worlds:
  "trace silent_world = []" "trace stalled_world = []" "trace happy_world = []"
  by (simp_all add: silent_world_def stalled_world_def happy_world_def)

section \<open>Runs of the scripts: properties\<close>

text \<open>
  C3. The sequencer is fail-fast, in both scripts. If some wait of a run returned
  \<^verbatim>\<open>False\<close>, that wait is the last call of the run: the trace is the calls of the steps
  before it, each wait matched, followed by the failed wait, so no later step was attempted
  and no later command written; the run exits with status 1; and the last log line is the
  error message of that very step. (When the report-completion marker does not arrive the
  trace ends at position 7, before the \<^verbatim>\<open>0\<close> and the copy command.)
\<close>

theorem step_timeout_stops_run:
  assumes "run_export h w = (status, w') \<or> run_test h w = (status, w')"
    and "trace w = []"
    and "i < length (trace w')"
    and "trace w' ! i = Wait p False"
  shows "status = 1 \<and> Suc i = length (trace w') \<and>
         (\<exists>csv_file m. (i, p, m) \<in> set wait_points \<and>
            trace w' = take i (full_trace csv_file) @ [Wait p False] \<and>
            last (log w') = (ERROR, m))"
proof -
  have mem: "Wait p False \<in> set (trace w')"
    using assms(3,4) nth_mem by fastforce
  from run_outcome [OF assms(1,2)] show ?thesis
  proof
    assume "export_post status (trace w') w'"
    then show ?thesis
    proof (cases rule: export_post_cases)
      case plumbing
      then show ?thesis using assms(3) by simp
    next
      case fault
      then show ?thesis using mem faulted_no_failed_wait by blast
    next
      case timeout
      then show ?thesis
        using timed_out_index [OF timeout(2) set_take_subset assms(3,4)] by blast
    next
      case unbound
      then show ?thesis using mem take_no_failed_wait by metis
    qed
  next
    assume "test_post h status (trace w') w'"
    then show ?thesis
    proof (cases rule: test_post_cases)
      case fault
      then show ?thesis using mem faulted_no_failed_wait by blast
    next
      case timeout
      then show ?thesis
        using timed_out_index [OF timeout(2) subset_refl assms(3,4)] by blast
    next
      case missing
      then show ?thesis using mem full_no_failed_wait [of p "test_csv h"] by auto
    next
      case failed
      then show ?thesis using mem full_no_failed_wait [of p "test_csv h"] by auto
    next
      case success
      then show ?thesis using mem full_no_failed_wait [of p "test_csv h"] by auto
    qed
  qed
qed

theorem step_timeout_stops_run_witness:
  "trace stalled_world = [] \<and>
   7 < length (trace (snd (run_export cron_host stalled_world))) \<and>
   trace (snd (run_export cron_host stalled_world)) ! 7 =
     Wait ''Completed generating All Endpoints report'' False \<and>
   fst (run_export cron_host stalled_world) = 1 \<and>
   length (trace (snd (run_export cron_host stalled_world))) = 8 \<and>
   trace (snd (run_export cron_host stalled_world)) =
     [Connect, InvokeShell, Wait ''ise-ppan-cx/admin#'' True,
      Send (''application configure ise'' @ [NL]), Wait ''Selection configuration option'' True,
      Send (''16'' @ [NL]), Wait ''Starting to generate All Endpoints report'' True,
      Wait ''Completed generating All Endpoints report'' False]"
proof -
  let ?R = "run_export cron_host stalled_world"
  have run: "run_export cron_host stalled_world = (fst ?R, snd ?R) \<or>
      run_test cron_host stalled_world = (fst ?R, snd ?R)"
    by simp
  have tr: "trace (snd ?R) =
      take 7 (full_trace []) @ [Wait ''Completed generating All Endpoints report'' False]"
    using export_stalled by simp
  have a: "7 < length (trace (snd ?R))"
    unfolding tr by simp
  have b: "trace (snd ?R) ! 7 = Wait ''Completed generating All Endpoints report'' False"
    unfolding tr by (simp add: nth_append)
  have "fst ?R = 1 \<and> Suc 7 = length (trace (snd ?R))"
    using step_timeout_stops_run [OF run fresh_worlds(2) a b] by blast
  moreover have "take 7 (full_trace []) @ [Wait ''Completed generating All Endpoints report'' False]
      = [Connect, InvokeShell, Wait ''ise-ppan-cx/admin#'' True,
      Send (''application configure ise'' @ [NL]), Wait ''Selection configuration option'' True,
      Send (''16'' @ [NL]), Wait ''Starting to generate All Endpoints report'' True,
      Wait ''Completed generating All Endpoints report'' False]"
    by (simp add: full_trace_def)
  ultimately show ?thesis
    using a b tr fresh_worlds(2) by simp
qed

text \<open>
  C4 says that every exit path closes the transport exactly once. The scripts close it
  only at the end of the shell session; there is no \<^verbatim>\<open>finally\<close>. On \<open>silent_world\<close> the
  run of \<^verbatim>\<open>ise-export.py\<close> connects, opens the shell, times out on the first prompt and
  exits with status 1 without a single close call.
\<close>

theorem transport_left_open_counterexample:
  "fst (run_export cron_host silent_world) = 1 \<and>
   trace (snd (run_export cron_host silent_world)) =
     [Connect, InvokeShell, Wait ''ise-ppan-cx/admin#'' False] \<and>
   count_list (trace (snd (run_export cron_host silent_world))) CloseChannel = 0 \<and>
   count_list (trace (snd (run_export cron_host silent_world))) CloseSSH = 0"
  using export_silent by simp

text \<open>
  C4, amended: a run calls \<^verbatim>\<open>channel.close()\<close> and \<^verbatim>\<open>ssh.close()\<close> at most once each, and
  only after the whole shell session (all six waits matched); a run that exits with
  status 0 has called each exactly once. On every other path the process exits with the
  connection never closed by the script.
\<close>

theorem transport_closed_only_after_session:
  assumes "run_export h w = (status, w') \<or> run_test h w = (status, w')"
    and "trace w = []"
  shows "count_list (trace w') CloseChannel \<le> 1 \<and> count_list (trace w') CloseSSH \<le> 1 \<and>
         (status = 0 \<longrightarrow>
            count_list (trace w') CloseChannel = 1 \<and> count_list (trace w') CloseSSH = 1) \<and>
         (CloseChannel \<in> set (trace w') \<or> CloseSSH \<in> set (trace w') \<longrightarrow>
            (\<exists>csv_file. prefix (full_trace csv_file) (trace w')))"
proof -
  obtain csv_file where "shape csv_file (trace w')"
    using run_shape [OF assms] by blast
  then have a: "count_list (trace w') CloseChannel \<le> 1 \<and> count_list (trace w') CloseSSH \<le> 1 \<and>
      (CloseChannel \<in> set (trace w') \<or> CloseSSH \<in> set (trace w') \<longrightarrow>
         prefix (full_trace csv_file) (trace w'))"
    by (rule shape_closes)
  have b: "count_list (trace w') CloseChannel = 1 \<and> count_list (trace w') CloseSSH = 1"
    if "status = 0"
    using run_outcome [OF assms]
  proof
    assume "export_post status (trace w') w'"
    then show ?thesis using that by (simp add: export_post_def)
  next
    assume "test_post h status (trace w') w'"
    then show ?thesis
      using that by (cases rule: test_post_cases) (simp_all add: close_count)
  qed
  show ?thesis using a b by blast
qed

theorem transport_closed_only_after_session_witness:
  "trace happy_world = [] \<and> fst (run_test nfs_host happy_world) = 0 \<and>
   count_list (trace (snd (run_test nfs_host happy_world))) CloseChannel = 1 \<and>
   count_list (trace (snd (run_test nfs_host happy_world))) CloseSSH = 1"
proof -
  let ?R = "run_test nfs_host happy_world"
  have run: "run_export nfs_host happy_world = (fst ?R, snd ?R) \<or>
      run_test nfs_host happy_world = (fst ?R, snd ?R)"
    by simp
  have "fst ?R = 0" using test_happy_published by simp
  then show ?thesis
    using transport_closed_only_after_session [OF run fresh_worlds(3)] fresh_worlds(3)
    by simp
qed





text \<open>
  C9. \<^verbatim>\<open>ise-export.py\<close> binds no name \<^verbatim>\<open>CSV_FILE\<close> (\<^verbatim>\<open>ise-export-test.py\<close> does). Every
  run of \<^verbatim>\<open>ise-export.py\<close> exits with status 1; a run that gets through its first five
  waits stops there: no copy command is written, and the last log line is the
  \<^verbatim>\<open>NameError\<close> reported by the \<^verbatim>\<open>except Exception\<close> handler.
\<close>

theorem csv_file_unbound_in_export:
  assumes "run_export h w = (status, w')"
    and "trace w = []"
  shows "map_of (export_globals h) ''CSV_FILE'' = None \<and>
         map_of (test_globals h) ''CSV_FILE'' = Some (test_csv h) \<and>
         status = 1 \<and>
         (prefix (take 10 (full_trace [])) (trace w') \<longrightarrow>
            trace w' = take 10 (full_trace []) \<and> last (log w') = (ERROR, unbound_line))"
proof -
  have post: "export_post status (trace w') w'"
    using run_export_outcome [OF assms(1)] assms(2) by fastforce
  then have st: "status = 1" and len: "length (trace w') \<le> 10"
    using export_post_length by blast+
  have "trace w' = take 10 (full_trace []) \<and> last (log w') = (ERROR, unbound_line)"
    if pre: "prefix (take 10 (full_trace [])) (trace w')"
  proof -
    have "length (take 10 (full_trace [])) = 10" by simp
    then have eq: "trace w' = take 10 (full_trace [])"
      using pre len by (metis prefix_length_le prefix_order.eq_iff le_antisym
          prefix_length_prefix order_refl)
    from post show ?thesis
    proof (cases rule: export_post_cases)
      case plumbing
      then show ?thesis using eq \<open>length (take 10 (full_trace [])) = 10\<close> by simp
    next
      case fault
      then have "length (trace w') \<le> 9"
        using faulted_length [OF _ early_fault_points_bound] by blast
      then show ?thesis using eq \<open>length (take 10 (full_trace [])) = 10\<close> by simp
    next
      case timeout
      then obtain q where "Wait q False \<in> set (trace w')"
        using timed_out_length [OF _ early_wait_points_bound] by blast
      then show ?thesis using eq take_no_failed_wait by metis
    next
      case unbound
      then show ?thesis by simp
    qed
  qed
  then show ?thesis
    using st export_globals_lookup test_globals_lookup(3) by blast
qed

theorem csv_file_unbound_in_export_witness:
  "trace happy_world = [] \<and>
   prefix (take 10 (full_trace [])) (trace (snd (run_export cron_host happy_world))) \<and>
   map_of (export_globals cron_host) ''CSV_FILE'' = None \<and>
   fst (run_export cron_host happy_world) = 1 \<and>
   trace (snd (run_export cron_host happy_world)) = take 10 (full_trace []) \<and>
   last (log (snd (run_export cron_host happy_world))) = (ERROR, unbound_line)"
proof -
  let ?R = "run_export cron_host happy_world"
  have run: "run_export cron_host happy_world = (fst ?R, snd ?R)"
    by simp
  have pre: "prefix (take 10 (full_trace [])) (trace (snd ?R))"
    using export_happy by simp
  show ?thesis
    using csv_file_unbound_in_export [OF run fresh_worlds(3)] pre fresh_worlds(3)
    by simp
qed

end
